theory Spec2Isabelle
  imports Complex_Main
begin

section \<open>Errors and results\<close>

text \<open>
  The model follows \<^verbatim>\<open>transformation.py\<close> and \<^verbatim>\<open>scale.py\<close> (Python 3 semantics).
  Every exception the code can raise is a value. The first five are Python's own
  exceptions as the two source files raise them; \<open>DimensionMismatchError\<close> and
  \<open>SingularMatrixError\<close> are the names the specification gives to the failures of the
  matrix kernel, whose code is not part of the two files. The specification calls the
  \<open>ValueError\<close> of \<^verbatim>\<open>Scale.__init__\<close> an \<open>InvalidTransformError\<close>.

  Python floats are modelled as real numbers: rounding, infinities and NaN are outside
  the model.
\<close>

datatype error = AttributeError | TypeError | IndexError | KeyError | ValueError
  | ZeroDivisionError | DimensionMismatchError | SingularMatrixError

definition bind_res :: "error + 'a \<Rightarrow> ('a \<Rightarrow> error + 'b) \<Rightarrow> error + 'b" where
  "bind_res r f = (case r of Inl e \<Rightarrow> Inl e | Inr x \<Rightarrow> f x)"

fun sequence_res :: "(error + 'a) list \<Rightarrow> error + 'a list" where
  "sequence_res [] = Inr []"
| "sequence_res (r # rs) =
     bind_res r (\<lambda>x. bind_res (sequence_res rs) (\<lambda>xs. Inr (x # xs)))"

section \<open>The matrix kernel\<close>

text \<open>
  The functions of this section are imported by the two source files from
  \<^verbatim>\<open>compas.geometry\<close>; their code is not among the source files. Each is modelled from the
  specification, on matrices as lists of rows.
\<close>

type_synonym matrix = "real list list"

definition is_shape :: "nat \<Rightarrow> nat \<Rightarrow> matrix \<Rightarrow> bool" where
  "is_shape r c A = (length A = r \<and> list_all (\<lambda>row. length row = c) A)"

text \<open>Modelled from the spec: \<open>identity()\<close>, the identity matrix.\<close>

definition identity_matrix :: "nat \<Rightarrow> matrix" where
  "identity_matrix n = map (\<lambda>i. map (\<lambda>j. if i = j then 1 else 0) [0..<n]) [0..<n]"

text \<open>
  Modelled from the spec: \<open>transpose(A)\<close> swaps rows and columns. There are as many
  columns as the shortest row has entries.
\<close>

definition transpose_matrix :: "matrix \<Rightarrow> matrix" where
  "transpose_matrix A =
     (case A of [] \<Rightarrow> []
      | r # rs \<Rightarrow>
          map (\<lambda>j. map (\<lambda>row. row ! j) A) [0..<foldr min (map length rs) (length r)])"

definition dot_vectors :: "real list \<Rightarrow> real list \<Rightarrow> real" where
  "dot_vectors u v = sum_list (map (\<lambda>(a, b). a * b) (zip u v))"

text \<open>
  Modelled from the spec: \<open>multiply(A, B)\<close> is the standard matrix product and fails with
  \<open>DimensionMismatchError\<close> if the inner dimensions disagree. The rows of \<open>B\<close> must have
  one length.
\<close>

definition multiply_matrices :: "matrix \<Rightarrow> matrix \<Rightarrow> error + matrix" where
  "multiply_matrices A B =
     (if list_all (\<lambda>row. length row = length B) A
         \<and> list_all (\<lambda>row. length row = length (hd B)) B
      then Inr (map (\<lambda>row. map (\<lambda>col. dot_vectors row col) (transpose_matrix B)) A)
      else Inl DimensionMismatchError)"

text \<open>Modelled from the spec: \<open>determinant(A)\<close>, closed-form cofactor expansion at size 4.\<close>

definition without :: "nat \<Rightarrow> 'a list \<Rightarrow> 'a list" where
  "without k xs = take k xs @ drop (Suc k) xs"

definition det3 :: "matrix \<Rightarrow> real" where
  "det3 A =
     A ! 0 ! 0 * (A ! 1 ! 1 * A ! 2 ! 2 - A ! 1 ! 2 * A ! 2 ! 1)
     - A ! 0 ! 1 * (A ! 1 ! 0 * A ! 2 ! 2 - A ! 1 ! 2 * A ! 2 ! 0)
     + A ! 0 ! 2 * (A ! 1 ! 0 * A ! 2 ! 1 - A ! 1 ! 1 * A ! 2 ! 0)"

definition cofactor :: "matrix \<Rightarrow> nat \<Rightarrow> nat \<Rightarrow> real" where
  "cofactor A i j = (- 1) ^ (i + j) * det3 (map (without j) (without i A))"

definition matrix_determinant :: "matrix \<Rightarrow> error + real" where
  "matrix_determinant A =
     (if is_shape 4 4 A
      then Inr (sum_list (map (\<lambda>j. A ! 0 ! j * cofactor A 0 j) [0, 1, 2, 3]))
      else Inl DimensionMismatchError)"

text \<open>
  Modelled from the spec: \<open>inverse(A)\<close> is the adjugate (cofactor) inverse and fails with
  \<open>SingularMatrixError\<close> when \<open>|det(A)|\<close> is below a numeric tolerance (suggested 1e-9).
\<close>

definition singular_tol :: real where
  "singular_tol = 1 / 10 ^ 9"

definition matrix_inverse :: "matrix \<Rightarrow> error + matrix" where
  "matrix_inverse A =
     bind_res (matrix_determinant A) (\<lambda>d.
       if \<bar>d\<bar> < singular_tol then Inl SingularMatrixError
       else Inr (map (\<lambda>i. map (\<lambda>j. cofactor A j i / d) [0, 1, 2, 3]) [0, 1, 2, 3]))"

text \<open>
  Modelled from the spec: the canonical scale matrix has diagonal \<open>(sx, sy, sz, 1)\<close> and
  all off-diagonal entries zero. Unpacking anything but three factors is a \<open>ValueError\<close>.
\<close>

definition matrix_from_scale_factors :: "real list \<Rightarrow> error + matrix" where
  "matrix_from_scale_factors factors =
     (case factors of
        [sx, sy, sz] \<Rightarrow>
          Inr [[sx, 0, 0, 0], [0, sy, 0, 0], [0, 0, sz, 0], [0, 0, 0, 1]]
      | _ \<Rightarrow> Inl ValueError)"

text \<open>Modelled from the spec: two matrices match within tolerance 1e-5, elementwise.\<close>

definition default_tol :: real where
  "default_tol = 1 / 100000"

definition allclose :: "real list \<Rightarrow> real list \<Rightarrow> bool" where
  "allclose xs ys = list_all2 (\<lambda>a b. \<bar>a - b\<bar> \<le> default_tol) xs ys"

definition flatten :: "matrix \<Rightarrow> real list" where
  "flatten A = concat A"

subsection \<open>Frames\<close>

text \<open>
  Modelled from the spec: a frame is an origin point and two basis vectors of a
  right-handed orthonormal coordinate system; \<open>from_frame\<close> is the transform from world XY
  to the frame, so its columns are the three axes and the origin.
\<close>

type_synonym vec3 = "real \<times> real \<times> real"

record frame =
  point :: vec3
  xaxis :: vec3
  yaxis :: vec3

definition cross_vectors :: "vec3 \<Rightarrow> vec3 \<Rightarrow> vec3" where
  "cross_vectors u v =
     (case u of (u0, u1, u2) \<Rightarrow> case v of (v0, v1, v2) \<Rightarrow>
        (u1 * v2 - u2 * v1, u2 * v0 - u0 * v2, u0 * v1 - u1 * v0))"

definition matrix_from_frame :: "frame \<Rightarrow> matrix" where
  "matrix_from_frame f =
     (case xaxis f of (x0, x1, x2) \<Rightarrow> case yaxis f of (y0, y1, y2) \<Rightarrow>
      case cross_vectors (xaxis f) (yaxis f) of (z0, z1, z2) \<Rightarrow>
      case point f of (p0, p1, p2) \<Rightarrow>
        [[x0, y0, z0, p0], [x1, y1, z1, p1], [x2, y2, z2, p2], [0, 0, 0, 1]])"

definition worldXY :: frame where
  "worldXY = \<lparr>point = (0, 0, 0), xaxis = (1, 0, 0), yaxis = (0, 1, 0)\<rparr>"

text \<open>
  Modelled from the spec:
  \<open>change_basis(A, B) = inverse(from_frame(B)) \<circ> from_frame(A)\<close>.
\<close>

definition matrix_from_change_of_basis :: "frame \<Rightarrow> frame \<Rightarrow> error + matrix" where
  "matrix_from_change_of_basis f1 f2 =
     bind_res (matrix_inverse (matrix_from_frame f2)) (\<lambda>inv.
       multiply_matrices inv (matrix_from_frame f1))"

text \<open>
  Modelled from the spec: applying a homogeneous transform to a point multiplies the
  matrix with the column \<open>(x, y, z, 1)\<close> and reads the first three coordinates.
\<close>

definition transform_point :: "matrix \<Rightarrow> vec3 \<Rightarrow> error + vec3" where
  "transform_point A p =
     (case p of (x, y, z) \<Rightarrow>
        if is_shape 4 4 A
        then bind_res (multiply_matrices A [[x], [y], [z], [1]]) (\<lambda>c.
               Inr (c ! 0 ! 0, c ! 1 ! 0, c ! 2 ! 0))
        else Inl DimensionMismatchError)"

subsection \<open>Decomposition\<close>

definition norm_vector :: "real list \<Rightarrow> real" where
  "norm_vector v = sqrt (dot_vectors v v)"

definition scale_vector :: "real list \<Rightarrow> real \<Rightarrow> real list" where
  "scale_vector v s = map (\<lambda>x. x * s) v"

definition subtract_vectors :: "real list \<Rightarrow> real list \<Rightarrow> real list" where
  "subtract_vectors u v = map (\<lambda>(a, b). a - b) (zip u v)"

text \<open>
  Modelled from the spec: steps 1 to 7 of the decomposition engine. The input is a 4x4
  matrix. The perspective vector is the last row (divided by \<open>M[3][3]\<close> if nonzero) when it
  differs from \<open>[0,0,0,1]\<close>; the translation is column 3; the rows of the upper-left 3x3
  block are orthonormalised one after the other, which gives the scale factors (the
  norms) and the shear entries (the dot products); a row of norm zero within tolerance is
  a \<open>SingularMatrixError\<close>; for a left-handed result the x scale and the first row are
  negated. The specification gives no formula for step 8 (the Euler angles), so the
  third component returned here is the orthonormal rows the angles are read from.
\<close>

definition decompose_matrix ::
  "matrix \<Rightarrow> error + (real list \<times> real list \<times> matrix \<times> real list \<times> real list)" where
  "decompose_matrix M =
     (if \<not> is_shape 4 4 M then Inl DimensionMismatchError
      else
        let perspective =
              (if allclose (M ! 3) [0, 0, 0, 1] then [0, 0, 0, 1]
               else if M ! 3 ! 3 \<noteq> 0 then map (\<lambda>x. x / (M ! 3 ! 3)) (M ! 3)
               else M ! 3);
            translation = [M ! 0 ! 3, M ! 1 ! 3, M ! 2 ! 3];
            r0 = take 3 (M ! 0);
            r1 = take 3 (M ! 1);
            r2 = take 3 (M ! 2);
            sx = norm_vector r0
        in if sx < singular_tol then Inl SingularMatrixError
        else
          let r0 = scale_vector r0 (1 / sx);
              shxy = dot_vectors r0 r1;
              r1 = subtract_vectors r1 (scale_vector r0 shxy);
              sy = norm_vector r1
          in if sy < singular_tol then Inl SingularMatrixError
          else
            let r1 = scale_vector r1 (1 / sy);
                shxz = dot_vectors r0 r2;
                shyz = dot_vectors r1 r2;
                r2 = subtract_vectors (subtract_vectors r2 (scale_vector r0 shxz))
                       (scale_vector r1 shyz);
                sz = norm_vector r2
            in if sz < singular_tol then Inl SingularMatrixError
            else
              let r2 = scale_vector r2 (1 / sz)
              in if det3 [r0, r1, r2] < 0
                 then Inr ([- sx, sy, sz], [shxy, shxz, shyz],
                           [scale_vector r0 (- 1), r1, r2], translation, perspective)
                 else Inr ([sx, sy, sz], [shxy, shxz, shyz],
                           [r0, r1, r2], translation, perspective))"

section \<open>Python values and the store\<close>

text \<open>
  The fragment of Python values the model covers: \<open>None\<close>, numbers, and references to
  list objects, whose cells hold such values again. List objects live in the store, so
  two references can name one list, and an assignment through one is seen through the
  other. Instances of \<open>Transformation\<close> and \<open>Scale\<close> live in the store too; the only
  attribute they ever get is \<open>matrix\<close>, which is absent until \<open>__init__\<close> assigns it.
\<close>

type_synonym addr = nat

datatype cls = Transformation | Scale

datatype pyval = VNone | VNum real | VList addr

record heap =
  cells :: "pyval list list"
  objs :: "(cls \<times> pyval option) list"

text \<open>An operand of a binary method: any value of the fragment, or an instance.\<close>

datatype operand = Val pyval | Inst addr

type_synonym 'a prog = "heap \<Rightarrow> (error + 'a) \<times> heap"

definition bindM :: "'a prog \<Rightarrow> ('a \<Rightarrow> 'b prog) \<Rightarrow> 'b prog" where
  "bindM m f h = (case m h of (Inl e, h1) \<Rightarrow> (Inl e, h1) | (Inr x, h1) \<Rightarrow> f x h1)"

definition returnM :: "'a \<Rightarrow> 'a prog" where
  "returnM x h = (Inr x, h)"

definition readM :: "(heap \<Rightarrow> error + 'a) \<Rightarrow> 'a prog" where
  "readM f h = (f h, h)"

subsection \<open>Lists\<close>

definition norm_index :: "nat \<Rightarrow> int \<Rightarrow> nat option" where
  "norm_index n i =
     (if 0 \<le> i \<and> i < int n then Some (nat i)
      else if i < 0 \<and> - int n \<le> i then Some (nat (int n + i))
      else None)"

definition py_index :: "'a list \<Rightarrow> int \<Rightarrow> error + 'a" where
  "py_index xs i =
     (case norm_index (length xs) i of None \<Rightarrow> Inl IndexError | Some k \<Rightarrow> Inr (xs ! k))"

definition get_list :: "heap \<Rightarrow> pyval \<Rightarrow> pyval list option" where
  "get_list h v =
     (case v of
        VList a \<Rightarrow> if a < length (cells h) then Some (cells h ! a) else None
      | _ \<Rightarrow> None)"

text \<open>\<^verbatim>\<open>v[i]\<close>: \<open>None\<close> and numbers are not subscriptable.\<close>

definition subscript :: "heap \<Rightarrow> pyval \<Rightarrow> int \<Rightarrow> error + pyval" where
  "subscript h v i =
     (case get_list h v of None \<Rightarrow> Inl TypeError | Some xs \<Rightarrow> py_index xs i)"

text \<open>\<^verbatim>\<open>A[i][j]\<close>\<close>

definition entry :: "heap \<Rightarrow> pyval \<Rightarrow> int \<Rightarrow> int \<Rightarrow> error + pyval" where
  "entry h A i j = bind_res (subscript h A i) (\<lambda>row. subscript h row j)"

text \<open>\<^verbatim>\<open>v[i] = x\<close>: the list object is updated in place.\<close>

definition store_subscript :: "pyval \<Rightarrow> int \<Rightarrow> pyval \<Rightarrow> unit prog" where
  "store_subscript v i x h =
     (case v of
        VList a \<Rightarrow>
          (case get_list h v of
             None \<Rightarrow> (Inl TypeError, h)
           | Some xs \<Rightarrow>
               (case norm_index (length xs) i of
                  None \<Rightarrow> (Inl IndexError, h)
                | Some k \<Rightarrow> (Inr (), h\<lparr>cells := (cells h)[a := xs[k := x]]\<rparr>)))
      | _ \<Rightarrow> (Inl TypeError, h))"

text \<open>
  \<^verbatim>\<open>v.copy()\<close>: for a list, a new list object with the same cells (a shallow copy);
  \<open>None\<close> and numbers have no such attribute.
\<close>

definition list_copy :: "pyval \<Rightarrow> pyval prog" where
  "list_copy v h =
     (case get_list h v of
        None \<Rightarrow> (Inl AttributeError, h)
      | Some xs \<Rightarrow> (Inr (VList (length (cells h))), h\<lparr>cells := cells h @ [xs]\<rparr>))"

text \<open>Truth value of \<^verbatim>\<open>if v:\<close>.\<close>

definition truthy :: "heap \<Rightarrow> pyval \<Rightarrow> bool" where
  "truthy h v =
     (case v of
        VNone \<Rightarrow> False
      | VNum x \<Rightarrow> x \<noteq> 0
      | VList a \<Rightarrow> (case get_list h v of None \<Rightarrow> False | Some xs \<Rightarrow> xs \<noteq> []))"

subsection \<open>Matrices in the store\<close>

text \<open>
  The kernel functions read their arguments as nested lists of numbers (anything else is
  a \<open>TypeError\<close>) and return their result as new list objects. A result that no
  reference outlives is not allocated in the model.
\<close>

definition read_num :: "pyval \<Rightarrow> error + real" where
  "read_num v = (case v of VNum x \<Rightarrow> Inr x | _ \<Rightarrow> Inl TypeError)"

definition read_row :: "heap \<Rightarrow> pyval \<Rightarrow> error + real list" where
  "read_row h v =
     (case get_list h v of
        None \<Rightarrow> Inl TypeError
      | Some xs \<Rightarrow> sequence_res (map read_num xs))"

definition read_matrix :: "heap \<Rightarrow> pyval \<Rightarrow> error + matrix" where
  "read_matrix h v =
     (case get_list h v of
        None \<Rightarrow> Inl TypeError
      | Some rows \<Rightarrow> sequence_res (map (read_row h) rows))"

definition new_list :: "pyval list \<Rightarrow> heap \<Rightarrow> pyval \<times> heap" where
  "new_list xs h = (VList (length (cells h)), h\<lparr>cells := cells h @ [xs]\<rparr>)"

fun new_rows :: "matrix \<Rightarrow> heap \<Rightarrow> pyval list \<times> heap" where
  "new_rows [] h = ([], h)"
| "new_rows (r # rs) h =
     (case new_list (map VNum r) h of (v, h1) \<Rightarrow>
      case new_rows rs h1 of (vs, h2) \<Rightarrow> (v # vs, h2))"

definition new_matrix :: "matrix \<Rightarrow> heap \<Rightarrow> pyval \<times> heap" where
  "new_matrix A h = (case new_rows A h of (vs, h1) \<Rightarrow> new_list vs h1)"

definition result_matrix :: "error + matrix \<Rightarrow> pyval prog" where
  "result_matrix r h =
     (case r of
        Inl e \<Rightarrow> (Inl e, h)
      | Inr A \<Rightarrow> (case new_matrix A h of (v, h1) \<Rightarrow> (Inr v, h1)))"

text \<open>
  A call of a kernel function: the arguments are read from the store as it is at the
  call, the result is allocated.
\<close>

definition kernel_call :: "(heap \<Rightarrow> error + matrix) \<Rightarrow> pyval prog" where
  "kernel_call F h = result_matrix (F h) h"

subsection \<open>Instances\<close>

definition type_of :: "heap \<Rightarrow> addr \<Rightarrow> cls" where
  "type_of h a = (if a < length (objs h) then fst (objs h ! a) else Transformation)"

text \<open>\<^verbatim>\<open>issubclass\<close>: \<open>Scale\<close> derives from \<open>Transformation\<close>.\<close>

fun issubclass :: "cls \<Rightarrow> cls \<Rightarrow> bool" where
  "issubclass Scale Transformation = True"
| "issubclass c d = (c = d)"

definition isinstance :: "heap \<Rightarrow> operand \<Rightarrow> cls \<Rightarrow> bool" where
  "isinstance h x c =
     (case x of Val v \<Rightarrow> False | Inst a \<Rightarrow> issubclass (type_of h a) c)"

text \<open>\<^verbatim>\<open>self.matrix\<close>\<close>

definition getattr_matrix :: "heap \<Rightarrow> addr \<Rightarrow> error + pyval" where
  "getattr_matrix h a =
     (if a < length (objs h)
      then (case snd (objs h ! a) of None \<Rightarrow> Inl AttributeError | Some m \<Rightarrow> Inr m)
      else Inl AttributeError)"

text \<open>\<^verbatim>\<open>other.matrix\<close>: \<open>None\<close>, numbers and lists have no such attribute.\<close>

definition operand_matrix :: "heap \<Rightarrow> operand \<Rightarrow> error + pyval" where
  "operand_matrix h x =
     (case x of Val v \<Rightarrow> Inl AttributeError | Inst a \<Rightarrow> getattr_matrix h a)"

text \<open>\<^verbatim>\<open>self.matrix = m\<close>\<close>

definition setattr_matrix :: "addr \<Rightarrow> pyval \<Rightarrow> unit prog" where
  "setattr_matrix a m h =
     (if a < length (objs h)
      then (Inr (), h\<lparr>objs := (objs h)[a := (fst (objs h ! a), Some m)]\<rparr>)
      else (Inl AttributeError, h))"

text \<open>The matrix of an instance as a value: what \<^verbatim>\<open>self.matrix\<close> holds, read as numbers.\<close>

definition matrix_of :: "heap \<Rightarrow> addr \<Rightarrow> error + matrix" where
  "matrix_of h a = bind_res (getattr_matrix h a) (read_matrix h)"

section \<open>The class Transformation and its subclass Scale\<close>

text \<open>
  Each method is a function of the store; a class method takes the class it is called on
  as \<open>c\<close>. The methods \<^verbatim>\<open>decomposed\<close>, \<^verbatim>\<open>rotation\<close> and \<^verbatim>\<open>basis\<close> are left out: they do
  nothing but call functions and classes outside the two files (the Euler angles, and
  the families \<open>Rotation\<close>, \<open>Shear\<close>, \<open>Translation\<close> and \<open>Projection\<close>).
\<close>

subsection \<open>Construction\<close>

text \<open>\<^verbatim>\<open>Transformation.__init__\<close>\<close>

definition Transformation_init :: "addr \<Rightarrow> pyval \<Rightarrow> unit prog" where
  "Transformation_init self matrix = setattr_matrix self matrix"

text \<open>
  \<^verbatim>\<open>Scale.__init__\<close>: a truthy matrix is decomposed, the canonical scale matrix is rebuilt
  from the scale factors, and a \<open>ValueError\<close> is raised unless the two agree.
\<close>

definition Scale_init :: "addr \<Rightarrow> pyval \<Rightarrow> unit prog" where
  "Scale_init self matrix h =
     (if truthy h matrix then
        (case bind_res (read_matrix h matrix) decompose_matrix of
           Inl e \<Rightarrow> (Inl e, h)
         | Inr (scale, rest) \<Rightarrow>
             (case matrix_from_scale_factors scale of
                Inl e \<Rightarrow> (Inl e, h)
              | Inr check \<Rightarrow>
                  (case read_matrix h matrix of
                     Inl e \<Rightarrow> (Inl e, h)
                   | Inr A \<Rightarrow>
                       if \<not> allclose (flatten A) (flatten check)
                       then (Inl ValueError, h)
                       else Transformation_init self matrix h)))
      else Transformation_init self matrix h)"

text \<open>
  The call \<^verbatim>\<open>cls(matrix)\<close>: a new instance without attributes is created, then the
  \<^verbatim>\<open>__init__\<close> of its class runs. When that raises, the caller gets no reference.
\<close>

definition new_instance :: "cls \<Rightarrow> pyval \<Rightarrow> addr prog" where
  "new_instance c matrix h =
     (let self = length (objs h);
          h1 = h\<lparr>objs := objs h @ [(c, None)]\<rparr>
      in case (case c of
                 Transformation \<Rightarrow> Transformation_init self matrix h1
               | Scale \<Rightarrow> Scale_init self matrix h1) of
           (Inl e, h2) \<Rightarrow> (Inl e, h2)
         | (Inr u, h2) \<Rightarrow> (Inr self, h2))"

subsection \<open>Element access and equality\<close>

text \<open>\<^verbatim>\<open>__getitem__\<close> with the key \<open>(i, j)\<close>\<close>

definition Transformation_getitem :: "heap \<Rightarrow> addr \<Rightarrow> int \<Rightarrow> int \<Rightarrow> error + pyval" where
  "Transformation_getitem h self i j =
     bind_res (getattr_matrix h self) (\<lambda>m. entry h m i j)"

text \<open>\<^verbatim>\<open>__setitem__\<close> with the key \<open>(i, j)\<close>\<close>

definition Transformation_setitem :: "addr \<Rightarrow> int \<Rightarrow> int \<Rightarrow> pyval \<Rightarrow> unit prog" where
  "Transformation_setitem self i j v =
     bindM (readM (\<lambda>h. bind_res (getattr_matrix h self) (\<lambda>m. subscript h m i)))
       (\<lambda>row. store_subscript row j v)"

text \<open>
  \<^verbatim>\<open>__eq__\<close>: the body of the \<^verbatim>\<open>try\<close> block, with its two loops, then the handler that
  turns every exception into \<open>False\<close>.
\<close>

definition cell_differs :: "heap \<Rightarrow> pyval \<Rightarrow> pyval \<Rightarrow> real \<Rightarrow> int \<Rightarrow> int \<Rightarrow> error + bool" where
  "cell_differs h A B tol i j =
     bind_res (entry h A i j) (\<lambda>a.
     bind_res (entry h B i j) (\<lambda>b.
       case a of
         VNum x \<Rightarrow> (case b of VNum y \<Rightarrow> Inr (\<bar>x - y\<bar> > tol) | _ \<Rightarrow> Inl TypeError)
       | _ \<Rightarrow> Inl TypeError))"

fun eq_cols :: "heap \<Rightarrow> pyval \<Rightarrow> pyval \<Rightarrow> real \<Rightarrow> int \<Rightarrow> int list \<Rightarrow> error + bool" where
  "eq_cols h A B tol i [] = Inr True"
| "eq_cols h A B tol i (j # js) =
     bind_res (cell_differs h A B tol i j) (\<lambda>d.
       if d then Inr False else eq_cols h A B tol i js)"

fun eq_rows :: "heap \<Rightarrow> pyval \<Rightarrow> pyval \<Rightarrow> real \<Rightarrow> int list \<Rightarrow> error + bool" where
  "eq_rows h A B tol [] = Inr True"
| "eq_rows h A B tol (i # is) =
     bind_res (eq_cols h A B tol i [0, 1, 2, 3]) (\<lambda>same.
       if same then eq_rows h A B tol is else Inr False)"

definition eq_body :: "heap \<Rightarrow> addr \<Rightarrow> operand \<Rightarrow> real \<Rightarrow> error + bool" where
  "eq_body h self other tol =
     bind_res (getattr_matrix h self) (\<lambda>A.
     bind_res (operand_matrix h other) (\<lambda>B.
       eq_rows h A B tol [0, 1, 2, 3]))"

definition Transformation_eq :: "heap \<Rightarrow> addr \<Rightarrow> operand \<Rightarrow> real \<Rightarrow> bool" where
  "Transformation_eq h self other tol =
     (case eq_body h self other tol of Inl e \<Rightarrow> False | Inr b \<Rightarrow> b)"

subsection \<open>Copying and serialisation\<close>

text \<open>\<^verbatim>\<open>copy\<close>: \<^verbatim>\<open>cls(self.matrix.copy())\<close> with \<^verbatim>\<open>cls = type(self)\<close>\<close>

definition Transformation_copy :: "addr \<Rightarrow> addr prog" where
  "Transformation_copy self h =
     (let c = type_of h self
      in bindM (bindM (readM (\<lambda>h. getattr_matrix h self)) list_copy) (new_instance c) h)"

text \<open>\<^verbatim>\<open>to_data\<close>: the dict \<^verbatim>\<open>{'matrix': self.matrix}\<close>, as an association list.\<close>

definition Transformation_to_data :: "heap \<Rightarrow> addr \<Rightarrow> error + (string \<times> pyval) list" where
  "Transformation_to_data h self =
     bind_res (getattr_matrix h self) (\<lambda>m. Inr [(''matrix'', m)])"

text \<open>\<^verbatim>\<open>from_data\<close>: \<^verbatim>\<open>cls(data['matrix'])\<close>\<close>

definition Transformation_from_data :: "cls \<Rightarrow> (string \<times> pyval) list \<Rightarrow> addr prog" where
  "Transformation_from_data c data =
     (case map_of data ''matrix'' of
        None \<Rightarrow> (\<lambda>h. (Inl KeyError, h))
      | Some m \<Rightarrow> new_instance c m)"

text \<open>\<^verbatim>\<open>from_matrix\<close>\<close>

definition Transformation_from_matrix :: "cls \<Rightarrow> pyval \<Rightarrow> addr prog" where
  "Transformation_from_matrix c matrix = new_instance c matrix"

subsection \<open>Construction from a list of numbers\<close>

text \<open>\<^verbatim>\<open>float(x)\<close> on the values of the fragment\<close>

definition py_float :: "pyval \<Rightarrow> error + real" where
  "py_float v = (case v of VNum x \<Rightarrow> Inr x | _ \<Rightarrow> Inl TypeError)"

text \<open>
  \<^verbatim>\<open>from_list\<close>: the inner loop over \<open>j\<close>, the outer loop over \<open>i\<close>, each step the
  assignment \<^verbatim>\<open>matrix[i][j] = float(numbers[i * 4 + j])\<close>, whose right-hand side is
  evaluated first.
\<close>

fun from_list_cols :: "pyval \<Rightarrow> pyval list \<Rightarrow> int \<Rightarrow> int list \<Rightarrow> unit prog" where
  "from_list_cols matrix numbers i [] h = (Inr (), h)"
| "from_list_cols matrix numbers i (j # js) h =
     (case bind_res (py_index numbers (i * 4 + j)) py_float of
        Inl e \<Rightarrow> (Inl e, h)
      | Inr x \<Rightarrow>
          (case subscript h matrix i of
             Inl e \<Rightarrow> (Inl e, h)
           | Inr row \<Rightarrow>
               (case store_subscript row j (VNum x) h of
                  (Inl e, h1) \<Rightarrow> (Inl e, h1)
                | (Inr u, h1) \<Rightarrow> from_list_cols matrix numbers i js h1)))"

fun from_list_rows :: "pyval \<Rightarrow> pyval list \<Rightarrow> int list \<Rightarrow> unit prog" where
  "from_list_rows matrix numbers [] h = (Inr (), h)"
| "from_list_rows matrix numbers (i # is) h =
     (case from_list_cols matrix numbers i [0, 1, 2, 3] h of
        (Inl e, h1) \<Rightarrow> (Inl e, h1)
      | (Inr u, h1) \<Rightarrow> from_list_rows matrix numbers is h1)"

definition Transformation_from_list :: "cls \<Rightarrow> pyval list \<Rightarrow> addr prog" where
  "Transformation_from_list c numbers =
     bindM (kernel_call (\<lambda>h. Inr (identity_matrix 4))) (\<lambda>matrix.
     bindM (from_list_rows matrix numbers [0, 1, 2, 3]) (\<lambda>u.
       new_instance c matrix))"

subsection \<open>Frames\<close>

text \<open>\<^verbatim>\<open>from_frame\<close>: \<^verbatim>\<open>cls(matrix_from_frame(frame))\<close>\<close>

definition Transformation_from_frame :: "cls \<Rightarrow> frame \<Rightarrow> addr prog" where
  "Transformation_from_frame c f =
     bindM (kernel_call (\<lambda>h. Inr (matrix_from_frame f))) (new_instance c)"

text \<open>
  \<^verbatim>\<open>from_frame_to_frame\<close>:
  \<^verbatim>\<open>cls(multiply_matrices(T2.matrix, matrix_inverse(T1.matrix)))\<close>
\<close>

definition Transformation_from_frame_to_frame :: "cls \<Rightarrow> frame \<Rightarrow> frame \<Rightarrow> addr prog" where
  "Transformation_from_frame_to_frame c frame_from frame_to =
     bindM (Transformation_from_frame c frame_from) (\<lambda>T1.
     bindM (Transformation_from_frame c frame_to) (\<lambda>T2.
     bindM (kernel_call (\<lambda>h.
               bind_res (matrix_of h T2) (\<lambda>B.
               bind_res (bind_res (matrix_of h T1) matrix_inverse) (\<lambda>A1.
                 multiply_matrices B A1))))
       (new_instance c)))"

text \<open>
  \<^verbatim>\<open>change_basis\<close>:
  \<^verbatim>\<open>cls(multiply_matrices(matrix_inverse(T2.matrix), T1.matrix))\<close>
\<close>

definition Transformation_change_basis :: "cls \<Rightarrow> frame \<Rightarrow> frame \<Rightarrow> addr prog" where
  "Transformation_change_basis c frame_from frame_to =
     bindM (Transformation_from_frame c frame_from) (\<lambda>T1.
     bindM (Transformation_from_frame c frame_to) (\<lambda>T2.
     bindM (kernel_call (\<lambda>h.
               bind_res (bind_res (matrix_of h T2) matrix_inverse) (\<lambda>B1.
               bind_res (matrix_of h T1) (\<lambda>A.
                 multiply_matrices B1 A))))
       (new_instance c)))"

subsection \<open>Transposition, inversion, concatenation\<close>

text \<open>\<^verbatim>\<open>transpose\<close>: \<^verbatim>\<open>self.matrix = transpose_matrix(self.matrix)\<close>\<close>

definition Transformation_transpose :: "addr \<Rightarrow> unit prog" where
  "Transformation_transpose self =
     bindM (kernel_call (\<lambda>h.
               bind_res (matrix_of h self) (\<lambda>A. Inr (transpose_matrix A))))
       (setattr_matrix self)"

text \<open>\<^verbatim>\<open>transposed\<close>\<close>

definition Transformation_transposed :: "addr \<Rightarrow> addr prog" where
  "Transformation_transposed self =
     bindM (Transformation_copy self) (\<lambda>T.
     bindM (Transformation_transpose T) (\<lambda>u. returnM T))"

text \<open>\<^verbatim>\<open>invert\<close>: \<^verbatim>\<open>self.matrix = matrix_inverse(self.matrix)\<close>\<close>

definition Transformation_invert :: "addr \<Rightarrow> unit prog" where
  "Transformation_invert self =
     bindM (kernel_call (\<lambda>h. bind_res (matrix_of h self) matrix_inverse))
       (setattr_matrix self)"

text \<open>\<^verbatim>\<open>inverse\<close>, also bound to the name \<^verbatim>\<open>inverted\<close>\<close>

definition Transformation_inverse :: "addr \<Rightarrow> addr prog" where
  "Transformation_inverse self =
     bindM (Transformation_copy self) (\<lambda>T.
     bindM (Transformation_invert T) (\<lambda>u. returnM T))"

text \<open>\<^verbatim>\<open>determinant\<close>\<close>

definition Transformation_determinant :: "heap \<Rightarrow> addr \<Rightarrow> error + real" where
  "Transformation_determinant h self = bind_res (matrix_of h self) matrix_determinant"

text \<open>The product \<^verbatim>\<open>multiply_matrices(self.matrix, other.matrix)\<close> of both methods below.\<close>

definition product_matrix :: "heap \<Rightarrow> addr \<Rightarrow> operand \<Rightarrow> error + matrix" where
  "product_matrix h self other =
     bind_res (getattr_matrix h self) (\<lambda>a.
     bind_res (operand_matrix h other) (\<lambda>b.
     bind_res (read_matrix h a) (\<lambda>A.
     bind_res (read_matrix h b) (\<lambda>B.
       multiply_matrices A B))))"

text \<open>\<^verbatim>\<open>concatenate\<close>\<close>

definition Transformation_concatenate :: "addr \<Rightarrow> operand \<Rightarrow> unit prog" where
  "Transformation_concatenate self other =
     bindM (kernel_call (\<lambda>h. product_matrix h self other)) (setattr_matrix self)"

text \<open>
  \<^verbatim>\<open>concatenated\<close>, which \<^verbatim>\<open>__mul__\<close> and \<^verbatim>\<open>__imul__\<close> call: the result is built by the
  class of \<open>self\<close> when \<open>other\<close> is an instance of it, by \<open>Transformation\<close> otherwise.
\<close>

definition Transformation_concatenated :: "addr \<Rightarrow> operand \<Rightarrow> addr prog" where
  "Transformation_concatenated self other h =
     (let c = type_of h self
      in if isinstance h other c
         then bindM (kernel_call (\<lambda>h. product_matrix h self other)) (new_instance c) h
         else bindM (kernel_call (\<lambda>h. product_matrix h self other))
                (new_instance Transformation) h)"

subsection \<open>Scale factors\<close>

text \<open>
  \<^verbatim>\<open>Scale.from_factors\<close>, called on the class \<open>Scale\<close>: \<^verbatim>\<open>S = cls()\<close>, then the matrix is
  assigned to \<^verbatim>\<open>S.matrix\<close> directly; with a frame (an object, hence truthy) it is
  \<^verbatim>\<open>Tw * Sc * Tl\<close>, without a frame (\<open>None\<close>) the canonical scale matrix.
\<close>

definition Scale_from_factors :: "real list \<Rightarrow> frame option \<Rightarrow> addr prog" where
  "Scale_from_factors factors fr =
     bindM (new_instance Scale VNone) (\<lambda>S.
     bindM (case fr of
              Some f \<Rightarrow>
                kernel_call (\<lambda>h.
                  bind_res (matrix_from_change_of_basis worldXY f) (\<lambda>Tl.
                  bind_res (matrix_from_scale_factors factors) (\<lambda>Sc.
                  bind_res (matrix_from_change_of_basis f worldXY) (\<lambda>Tw.
                  bind_res (multiply_matrices Tw Sc) (\<lambda>TwSc.
                    multiply_matrices TwSc Tl)))))
            | None \<Rightarrow> kernel_call (\<lambda>h. matrix_from_scale_factors factors))
       (\<lambda>m. bindM (setattr_matrix S m) (\<lambda>u. returnM S)))"

section \<open>Observations used in the statements\<close>

text \<open>
  What the caller of a factory or method sees: the exception, or the matrix of the
  instance returned, read in the store the call leaves behind.
\<close>

definition outcome :: "(error + addr) \<times> heap \<Rightarrow> error + matrix" where
  "outcome r = (case r of (Inl e, h) \<Rightarrow> Inl e | (Inr a, h) \<Rightarrow> matrix_of h a)"

text \<open>
  Equality as the specification words it: elementwise comparison of the two 4x4 matrices
  with an absolute tolerance. An entry that cannot be read, or is not a number, is not
  close to anything.
\<close>

definition cells_close :: "heap \<Rightarrow> pyval \<Rightarrow> pyval \<Rightarrow> real \<Rightarrow> int \<Rightarrow> int \<Rightarrow> bool" where
  "cells_close h A B tol i j =
     (case entry h A i j of
        Inr (VNum x) \<Rightarrow>
          (case entry h B i j of Inr (VNum y) \<Rightarrow> \<bar>x - y\<bar> \<le> tol | _ \<Rightarrow> False)
      | _ \<Rightarrow> False)"

definition matrices_close :: "heap \<Rightarrow> pyval \<Rightarrow> pyval \<Rightarrow> real \<Rightarrow> bool" where
  "matrices_close h A B tol =
     list_all (\<lambda>i. list_all (\<lambda>j. cells_close h A B tol i j) [0, 1, 2, 3]) [0, 1, 2, 3]"

text \<open>
  An example store: the instance \<open>0\<close> is \<^verbatim>\<open>Transformation(M)\<close> for the identity matrix
  \<open>M\<close>, a list of four row lists.
\<close>

definition identity_store :: heap where
  "identity_store =
     \<lparr>cells = [[VNum 1, VNum 0, VNum 0, VNum 0], [VNum 0, VNum 1, VNum 0, VNum 0],
               [VNum 0, VNum 0, VNum 1, VNum 0], [VNum 0, VNum 0, VNum 0, VNum 1],
               [VList 0, VList 1, VList 2, VList 3]],
      objs = [(Transformation, Some (VList 4))]\<rparr>"

text \<open>
  The store \<open>h'\<close> keeps every list object and every instance of \<open>h\<close> as it is, and
  may hold new ones.
\<close>

definition heap_le :: "heap \<Rightarrow> heap \<Rightarrow> bool" where
  "heap_le h h' =
     (take (length (cells h)) (cells h') = cells h \<and> length (cells h) \<le> length (cells h')
      \<and> take (length (objs h)) (objs h') = objs h \<and> length (objs h) \<le> length (objs h'))"

text \<open>
  A second example store: the instance \<open>0\<close> holds the 4x4 identity matrix, the instance
  \<open>1\<close> a matrix of four rows of five numbers whose first four columns are the identity.
\<close>

definition wide_store :: heap where
  "wide_store =
     \<lparr>cells = [[VNum 1, VNum 0, VNum 0, VNum 0], [VNum 0, VNum 1, VNum 0, VNum 0],
               [VNum 0, VNum 0, VNum 1, VNum 0], [VNum 0, VNum 0, VNum 0, VNum 1],
               [VList 0, VList 1, VList 2, VList 3],
               [VNum 1, VNum 0, VNum 0, VNum 0, VNum 7], [VNum 0, VNum 1, VNum 0, VNum 0, VNum 7],
               [VNum 0, VNum 0, VNum 1, VNum 0, VNum 7], [VNum 0, VNum 0, VNum 0, VNum 1, VNum 7],
               [VList 5, VList 6, VList 7, VList 8]],
      objs = [(Transformation, Some (VList 4)), (Transformation, Some (VList 9))]\<rparr>"

text \<open>
  The store that holds, after the list objects \<open>Cs\<close> and beside the instances \<open>Os\<close>, the
  rows of the matrix \<open>A\<close> and then its outer list: what allocating \<open>A\<close> gives.
\<close>

definition matrix_store :: "pyval list list \<Rightarrow> (cls \<times> pyval option) list \<Rightarrow> matrix \<Rightarrow> heap" where
  "matrix_store Cs Os A =
     \<lparr>cells = Cs @ map (map VNum) A @ [map VList [length Cs..<length Cs + length A]],
      objs = Os\<rparr>"

text \<open>
  The two loops of \<^verbatim>\<open>from_list\<close> as they act on the matrix as a value, when every index
  into \<open>numbers\<close> is in range.
\<close>

fun fill_cols :: "real list \<Rightarrow> int \<Rightarrow> int list \<Rightarrow> matrix \<Rightarrow> matrix" where
  "fill_cols xs i [] A = A"
| "fill_cols xs i (j # js) A =
     fill_cols xs i js (A[nat i := (A ! nat i)[nat j := xs ! nat (i * 4 + j)]])"

fun fill_rows :: "real list \<Rightarrow> int list \<Rightarrow> matrix \<Rightarrow> matrix" where
  "fill_rows xs [] A = A"
| "fill_rows xs (i # is) A = fill_rows xs is (fill_cols xs i [0, 1, 2, 3] A)"

definition empty_store :: heap where
  "empty_store = \<lparr>cells = [], objs = []\<rparr>"

text \<open>
  The frame of the docstring of \<^verbatim>\<open>Scale.from_factors\<close>: origin \<open>(2, 5, 0)\<close>, axes
  \<open>(1, 0, 0)\<close> and \<open>(0, 1, 0)\<close>.
\<close>

definition doc_frame :: frame where
  "doc_frame = \<lparr>point = (2, 5, 0), xaxis = (1, 0, 0), yaxis = (0, 1, 0)\<rparr>"

text \<open>
  The validation of \<^verbatim>\<open>Scale.__init__\<close> on the value of a truthy matrix: the exception it
  raises, or nothing.
\<close>

definition scale_check :: "matrix \<Rightarrow> error + unit" where
  "scale_check A =
     (case decompose_matrix A of
        Inl e \<Rightarrow> Inl e
      | Inr (scale, rest) \<Rightarrow>
          (case matrix_from_scale_factors scale of
             Inl e \<Rightarrow> Inl e
           | Inr check \<Rightarrow>
               if \<not> allclose (flatten A) (flatten check) then Inl ValueError else Inr ()))"

text \<open>
  A third example store: a list of four rows, the identity matrix with the entry
  \<open>[1][0]\<close> set to 1, so that the first two rows are not orthogonal. No instance yet.
\<close>

definition shear_store :: heap where
  "shear_store =
     \<lparr>cells = [[VNum 1, VNum 0, VNum 0, VNum 0], [VNum 1, VNum 1, VNum 0, VNum 0],
               [VNum 0, VNum 0, VNum 1, VNum 0], [VNum 0, VNum 0, VNum 0, VNum 1],
               [VList 0, VList 1, VList 2, VList 3]],
      objs = []\<rparr>"

text \<open>What the constructor of a class makes of a matrix value that is not empty.\<close>

definition accepts :: "cls \<Rightarrow> matrix \<Rightarrow> bool" where
  "accepts c A = (case c of Transformation \<Rightarrow> True | Scale \<Rightarrow> scale_check A = Inr ())"

text \<open>
  A fourth example store, as three constructor calls leave it: the instance \<open>0\<close> is
  \<^verbatim>\<open>Scale.from_factors([2, 2, 2], frame)\<close> for the frame of the docstring, the instance \<open>1\<close>
  is \<^verbatim>\<open>Scale.from_factors([1, 2, 3])\<close>, the instance \<open>2\<close> is
  \<^verbatim>\<open>Transformation.from_frame(Frame.worldXY())\<close>.
\<close>

definition family_store :: heap where
  "family_store =
     \<lparr>cells = [[VNum 2, VNum 0, VNum 0, VNum (- 2)], [VNum 0, VNum 2, VNum 0, VNum (- 5)],
               [VNum 0, VNum 0, VNum 2, VNum 0], [VNum 0, VNum 0, VNum 0, VNum 1],
               [VList 0, VList 1, VList 2, VList 3],
               [VNum 1, VNum 0, VNum 0, VNum 0], [VNum 0, VNum 2, VNum 0, VNum 0],
               [VNum 0, VNum 0, VNum 3, VNum 0], [VNum 0, VNum 0, VNum 0, VNum 1],
               [VList 5, VList 6, VList 7, VList 8],
               [VNum 1, VNum 0, VNum 0, VNum 0], [VNum 0, VNum 1, VNum 0, VNum 0],
               [VNum 0, VNum 0, VNum 1, VNum 0], [VNum 0, VNum 0, VNum 0, VNum 1],
               [VList 10, VList 11, VList 12, VList 13]],
      objs = [(Scale, Some (VList 4)), (Scale, Some (VList 9)),
              (Transformation, Some (VList 14))]\<rparr>"

section \<open>Results and the store: basic facts\<close>

lemma bind_res_Inl [simp]: "bind_res (Inl e) f = Inl e"
  by (simp add: bind_res_def)

lemma bind_res_Inr [simp]: "bind_res (Inr x) f = f x"
  by (simp add: bind_res_def)

lemma bind_res_eq_Inr:
  "(bind_res r f = Inr y) = (\<exists>x. r = Inr x \<and> f x = Inr y)"
  by (cases r) simp_all

lemma sequence_res_Inr: "sequence_res (map Inr xs) = Inr xs"
  by (induction xs) simp_all

lemma sequence_res_all_Inr:
  "sequence_res rs = Inr xs \<Longrightarrow> rs = map Inr xs"
proof (induction rs arbitrary: xs)
  case Nil
  then show ?case by simp
next
  case (Cons r rs)
  then show ?case by (auto simp: bind_res_eq_Inr)
qed

lemma get_list_objs [simp]: "get_list (h\<lparr>objs := os\<rparr>) v = get_list h v"
  by (simp add: get_list_def split: pyval.splits)

lemma read_row_objs [simp]: "read_row (h\<lparr>objs := os\<rparr>) v = read_row h v"
  by (simp add: read_row_def)

lemma read_row_objs_fun [simp]: "read_row (h\<lparr>objs := os\<rparr>) = read_row h"
  by (simp add: fun_eq_iff)

lemma read_matrix_objs [simp]: "read_matrix (h\<lparr>objs := os\<rparr>) v = read_matrix h v"
  by (simp add: read_matrix_def split: option.splits)

lemma get_list_grow:
  "get_list h v = Some xs \<Longrightarrow> cells h' = cells h @ ext \<Longrightarrow> get_list h' v = Some xs"
  by (auto simp: get_list_def nth_append split: pyval.splits if_splits)

lemma read_row_grow:
  "read_row h v = Inr r \<Longrightarrow> cells h' = cells h @ ext \<Longrightarrow> read_row h' v = Inr r"
  by (auto simp: read_row_def dest: get_list_grow split: option.splits)

lemma read_matrix_grow:
  assumes "read_matrix h v = Inr A" and "cells h' = cells h @ ext"
  shows "read_matrix h' v = Inr A"
proof -
  from assms(1) obtain rows where g: "get_list h v = Some rows"
    and s: "sequence_res (map (read_row h) rows) = Inr A"
    by (auto simp: read_matrix_def split: option.splits)
  from s have m: "map (read_row h) rows = map Inr A" by (rule sequence_res_all_Inr)
  have "map (read_row h') rows = map Inr A"
  proof (rule nth_equalityI)
    show "length (map (read_row h') rows) = length (map Inr A :: (error + real list) list)"
      using arg_cong [OF m, of length] by simp
  next
    fix i assume "i < length (map (read_row h') rows)"
    then have i: "i < length rows" by simp
    then have "read_row h (rows ! i) = Inr (A ! i)"
      using arg_cong [OF m, of "\<lambda>l. l ! i"] arg_cong [OF m, of length] by simp
    then have "read_row h' (rows ! i) = Inr (A ! i)"
      using assms(2) by (rule read_row_grow)
    then show "map (read_row h') rows ! i = map Inr A ! i"
      using i arg_cong [OF m, of length] by simp
  qed
  then show ?thesis
    using get_list_grow [OF g assms(2)] by (simp add: read_matrix_def sequence_res_Inr)
qed

lemma upt_shift: "[n..<n + Suc k] = n # [Suc n..<Suc n + k]"
  by (simp add: upt_conv_Cons)

lemma new_rows_eq:
  "new_rows A h =
     (map VList [length (cells h)..<length (cells h) + length A],
      h\<lparr>cells := cells h @ map (map VNum) A\<rparr>)"
proof (induction A arbitrary: h)
  case Nil
  then show ?case by simp
next
  case (Cons r A)
  show ?case
    by (simp add: new_list_def Cons upt_rec [of "length (cells h)"] del: upt_Suc)
qed

lemma new_matrix_eq:
  "new_matrix A h =
     (VList (length (cells h) + length A),
      h\<lparr>cells := cells h @ map (map VNum) A
                  @ [map VList [length (cells h)..<length (cells h) + length A]]\<rparr>)"
  by (simp add: new_matrix_def new_rows_eq new_list_def)

lemma read_num_VNum: "read_num \<circ> VNum = Inr"
  by (simp add: fun_eq_iff read_num_def)

lemma read_new_matrix:
  "read_matrix (snd (new_matrix A h)) (fst (new_matrix A h)) = Inr A"
proof -
  let ?n = "length (cells h)"
  let ?h = "snd (new_matrix A h)"
  have row: "read_row ?h (VList (?n + i)) = Inr (A ! i)" if "i < length A" for i
    using that
    by (simp add: new_matrix_eq read_row_def get_list_def nth_append read_num_VNum
        sequence_res_Inr)
  have "map (read_row ?h) (map VList [?n..<?n + length A]) = map Inr A"
    by (rule nth_equalityI) (simp_all add: row)
  then show ?thesis
    by (simp add: new_matrix_eq read_matrix_def get_list_def nth_append sequence_res_Inr
        del: map_map)
qed

lemma heap_le_refl [simp]: "heap_le h h"
  by (simp add: heap_le_def)

lemma take_prefix_iff:
  "(take (length xs) ys = xs \<and> length xs \<le> length ys) = (\<exists>zs. ys = xs @ zs)"
proof
  assume "take (length xs) ys = xs \<and> length xs \<le> length ys"
  then have "ys = xs @ drop (length xs) ys"
    using append_take_drop_id [of "length xs" ys] by simp
  then show "\<exists>zs. ys = xs @ zs" ..
next
  assume "\<exists>zs. ys = xs @ zs"
  then show "take (length xs) ys = xs \<and> length xs \<le> length ys" by auto
qed

lemma heap_le_iff:
  "heap_le h h' = ((\<exists>ce. cells h' = cells h @ ce) \<and> (\<exists>oe. objs h' = objs h @ oe))"
  unfolding heap_le_def using take_prefix_iff [of "cells h" "cells h'"]
    take_prefix_iff [of "objs h" "objs h'"] by auto

lemma heap_le_trans: "heap_le h1 h2 \<Longrightarrow> heap_le h2 h3 \<Longrightarrow> heap_le h1 h3"
  by (auto simp: heap_le_iff)

lemma heap_le_cells: "heap_le h h' \<Longrightarrow> \<exists>ext. cells h' = cells h @ ext"
  by (simp add: heap_le_iff)

lemma heap_le_objs: "heap_le h h' \<Longrightarrow> \<exists>ext. objs h' = objs h @ ext"
  by (simp add: heap_le_iff)

lemma getattr_matrix_le:
  "getattr_matrix h a = Inr m \<Longrightarrow> heap_le h h' \<Longrightarrow> getattr_matrix h' a = Inr m"
  by (auto simp: getattr_matrix_def nth_append dest!: heap_le_objs split: if_splits)

lemma read_matrix_le:
  "read_matrix h v = Inr A \<Longrightarrow> heap_le h h' \<Longrightarrow> read_matrix h' v = Inr A"
  using heap_le_cells read_matrix_grow by blast

lemma matrix_of_le:
  "matrix_of h a = Inr A \<Longrightarrow> heap_le h h' \<Longrightarrow> matrix_of h' a = Inr A"
  by (auto simp: matrix_of_def bind_res_eq_Inr dest: getattr_matrix_le read_matrix_le)

lemma type_of_le:
  "a < length (objs h) \<Longrightarrow> heap_le h h' \<Longrightarrow> type_of h' a = type_of h a"
  by (auto simp: type_of_def nth_append dest!: heap_le_objs)

lemma result_matrix_Inl [simp]: "result_matrix (Inl e) h = (Inl e, h)"
  by (simp add: result_matrix_def)

lemma result_matrix_Inr:
  "\<exists>v h'. result_matrix (Inr A) h = (Inr v, h') \<and> heap_le h h' \<and> objs h' = objs h
      \<and> read_matrix h' v = Inr A"
proof -
  have "read_matrix (snd (new_matrix A h)) (fst (new_matrix A h)) = Inr A"
    by (rule read_new_matrix)
  then show ?thesis
    by (simp add: result_matrix_def new_matrix_eq heap_le_def)
qed

lemma new_instance_Transformation:
  "new_instance Transformation m h =
     (Inr (length (objs h)), h\<lparr>objs := objs h @ [(Transformation, Some m)]\<rparr>)"
  by (simp add: new_instance_def Transformation_init_def setattr_matrix_def)

lemma build_Inl [simp]: "bindM (result_matrix (Inl e)) k h = (Inl e, h)"
  by (simp add: bindM_def)

lemma build_Inr:
  "\<exists>h'. bindM (result_matrix (Inr A)) (new_instance Transformation) h
           = (Inr (length (objs h)), h')
      \<and> heap_le h h' \<and> length (objs h') = Suc (length (objs h))
      \<and> matrix_of h' (length (objs h)) = Inr A
      \<and> type_of h' (length (objs h)) = Transformation"
proof -
  obtain v h1 where r: "result_matrix (Inr A) h = (Inr v, h1)" and le: "heap_le h h1"
    and o: "objs h1 = objs h" and rd: "read_matrix h1 v = Inr A"
    using result_matrix_Inr by blast
  let ?h = "h1\<lparr>objs := objs h1 @ [(Transformation, Some v)]\<rparr>"
  have "heap_le h1 ?h" by (simp add: heap_le_def)
  with le have "heap_le h ?h" by (rule heap_le_trans)
  moreover have "matrix_of ?h (length (objs h)) = Inr A"
    using rd o by (simp add: matrix_of_def getattr_matrix_def)
  moreover have "type_of ?h (length (objs h)) = Transformation"
    using o by (simp add: type_of_def)
  ultimately show ?thesis
    using r o by (simp add: bindM_def new_instance_Transformation)
qed

lemma bindM_kernel_call:
  "bindM (kernel_call F) k h0 = bindM (result_matrix (F h0)) k h0"
  by (simp add: bindM_def kernel_call_def)

lemma from_frame_run:
  "\<exists>h'. Transformation_from_frame Transformation f h = (Inr (length (objs h)), h')
      \<and> heap_le h h' \<and> length (objs h') = Suc (length (objs h))
      \<and> matrix_of h' (length (objs h)) = Inr (matrix_from_frame f)"
  using build_Inr [of "matrix_from_frame f" h]
  by (auto simp: Transformation_from_frame_def bindM_kernel_call)

lemma outcome_from_frame:
  "outcome (Transformation_from_frame Transformation f h) = Inr (matrix_from_frame f)"
  using from_frame_run [of f h] by (auto simp: outcome_def)

lemma outcome_build:
  "outcome (bindM (result_matrix r) (new_instance Transformation) h) = r"
proof (cases r)
  case (Inl e)
  then show ?thesis by (simp add: outcome_def)
next
  case (Inr A)
  then show ?thesis using build_Inr [of A h] by (auto simp: outcome_def)
qed

text \<open>
  Claim C5. For every pair of frames \<open>A\<close> and \<open>B\<close> and every store, the matrix of
  \<^verbatim>\<open>Transformation.from_frame_to_frame(A, B)\<close> is the product of the matrix of
  \<^verbatim>\<open>from_frame(B)\<close> with the inverse of the matrix of \<^verbatim>\<open>from_frame(A)\<close>, and the matrix of
  \<^verbatim>\<open>Transformation.change_basis(A, B)\<close> is the product of the inverse of the matrix of
  \<^verbatim>\<open>from_frame(B)\<close> with the matrix of \<^verbatim>\<open>from_frame(A)\<close>; a failure of the inversion or of
  the product is what the factory raises. Each factory follows its own formula.
\<close>

theorem frame_factories:
  "outcome (Transformation_from_frame_to_frame Transformation A B h) =
     bind_res (outcome (Transformation_from_frame Transformation B h)) (\<lambda>b.
     bind_res (bind_res (outcome (Transformation_from_frame Transformation A h)) matrix_inverse)
       (\<lambda>a1. multiply_matrices b a1))
   \<and> outcome (Transformation_change_basis Transformation A B h) =
     bind_res (bind_res (outcome (Transformation_from_frame Transformation B h)) matrix_inverse)
       (\<lambda>b1.
     bind_res (outcome (Transformation_from_frame Transformation A h)) (\<lambda>a.
       multiply_matrices b1 a))"
proof -
  obtain h1 where r1: "Transformation_from_frame Transformation A h = (Inr (length (objs h)), h1)"
    and le1: "heap_le h h1" and n1: "length (objs h1) = Suc (length (objs h))"
    and m1: "matrix_of h1 (length (objs h)) = Inr (matrix_from_frame A)"
    using from_frame_run by blast
  obtain h2 where r2: "Transformation_from_frame Transformation B h1 = (Inr (length (objs h1)), h2)"
    and le2: "heap_le h1 h2"
    and m2: "matrix_of h2 (length (objs h1)) = Inr (matrix_from_frame B)"
    using from_frame_run by blast
  have m1': "matrix_of h2 (length (objs h)) = Inr (matrix_from_frame A)"
    using m1 le2 by (rule matrix_of_le)
  have "outcome (Transformation_from_frame_to_frame Transformation A B h) =
      bind_res (bind_res (Inr (matrix_from_frame A)) matrix_inverse)
        (\<lambda>a1. multiply_matrices (matrix_from_frame B) a1)"
    by (simp add: Transformation_from_frame_to_frame_def
        bindM_def [of "Transformation_from_frame Transformation A"]
        bindM_def [of "Transformation_from_frame Transformation B"]
        r1 r2 n1 bindM_kernel_call m1' m2 [unfolded n1] outcome_build)
  moreover have "outcome (Transformation_change_basis Transformation A B h) =
      bind_res (matrix_inverse (matrix_from_frame B))
        (\<lambda>b1. multiply_matrices b1 (matrix_from_frame A))"
    by (simp add: Transformation_change_basis_def
        bindM_def [of "Transformation_from_frame Transformation A"]
        bindM_def [of "Transformation_from_frame Transformation B"]
        r1 r2 n1 bindM_kernel_call m1' m2 [unfolded n1] outcome_build)
  ultimately show ?thesis
    by (simp add: outcome_from_frame)
qed

lemma cell_differs_close:
  "(case cell_differs h A B tol i j of Inl e \<Rightarrow> False | Inr d \<Rightarrow> \<not> d)
     = cells_close h A B tol i j"
  by (auto simp: cell_differs_def cells_close_def bind_res_def split: sum.splits pyval.splits)

lemma list_all_Cons: "list_all P (x # xs) = (P x \<and> list_all P xs)"
  by simp

lemma eq_cols_close:
  "(case eq_cols h A B tol i js of Inl e \<Rightarrow> False | Inr b \<Rightarrow> b)
     = list_all (\<lambda>j. cells_close h A B tol i j) js"
proof (induction js)
  case Nil
  then show ?case by simp
next
  case (Cons j js)
  show ?case
  proof (cases "cell_differs h A B tol i j")
    case (Inl e)
    with cell_differs_close [of h A B tol i j] show ?thesis by simp
  next
    case (Inr d)
    with cell_differs_close [of h A B tol i j] Cons show ?thesis by (cases d) simp_all
  qed
qed

lemma eq_cols_bool:
  "eq_cols h A B tol i js = Inr b \<Longrightarrow> b = list_all (\<lambda>j. cells_close h A B tol i j) js"
  using eq_cols_close [of h A B tol i js] by simp

lemma eq_cols_error:
  "eq_cols h A B tol i js = Inl e \<Longrightarrow> \<not> list_all (\<lambda>j. cells_close h A B tol i j) js"
  using eq_cols_close [of h A B tol i js] by simp

lemma eq_rows_close:
  "(case eq_rows h A B tol is of Inl e \<Rightarrow> False | Inr b \<Rightarrow> b)
     = list_all (\<lambda>i. list_all (\<lambda>j. cells_close h A B tol i j) [0, 1, 2, 3]) is"
proof (induction "is")
  case Nil
  then show ?case by simp
next
  case (Cons i "is")
  let ?P = "\<lambda>i. list_all (\<lambda>j. cells_close h A B tol i j) [0, 1, 2, 3]"
  have step: "eq_rows h A B tol (i # is) =
      bind_res (eq_cols h A B tol i [0, 1, 2, 3])
        (\<lambda>same. if same then eq_rows h A B tol is else Inr False)"
    by (rule eq_rows.simps)
  have all: "list_all ?P (i # is) = (?P i \<and> list_all ?P is)"
    by (rule list_all_Cons)
  show ?case
  proof (cases "eq_cols h A B tol i [0, 1, 2, 3]")
    case (Inl e)
    from eq_cols_error [OF Inl] show ?thesis
      unfolding step all Inl by (simp only: bind_res_Inl sum.case simp_thms)
  next
    case (Inr b)
    from eq_cols_bool [OF Inr] have b: "b = ?P i" .
    show ?thesis
    proof (cases b)
      case True
      with b have "?P i" by simp
      with Cons.IH True show ?thesis
        unfolding step all Inr by (simp only: bind_res_Inr if_True simp_thms)
    next
      case False
      with b have "\<not> ?P i" by simp
      with False show ?thesis
        unfolding step all Inr by (simp only: bind_res_Inr if_False sum.case simp_thms)
    qed
  qed
qed

lemma eq_as_close:
  "Transformation_eq h self other tol =
     (case getattr_matrix h self of
        Inl e \<Rightarrow> False
      | Inr A \<Rightarrow>
          (case operand_matrix h other of
             Inl e \<Rightarrow> False
           | Inr B \<Rightarrow> matrices_close h A B tol))"
proof (cases "getattr_matrix h self")
  case (Inl e)
  then show ?thesis by (simp add: Transformation_eq_def eq_body_def)
next
  case A: (Inr A)
  show ?thesis
  proof (cases "operand_matrix h other")
    case (Inl e)
    with A show ?thesis by (simp add: Transformation_eq_def eq_body_def)
  next
    case (Inr B)
    with A show ?thesis
      unfolding Transformation_eq_def eq_body_def matrices_close_def
      by (simp only: bind_res_Inr sum.case eq_rows_close)
  qed
qed

text \<open>
  Claim C9, as amended. \<^verbatim>\<open>__eq__\<close> never raises: whatever the two operands are, it returns
  a truth value, and every exception of the comparison gives \<open>False\<close>. It returns \<open>True\<close>
  exactly when both operands have a \<open>matrix\<close> attribute and, for all \<open>i, j\<close> from 0 to 3,
  the entries \<open>[i][j]\<close> of both can be read, are numbers and differ by at most the
  tolerance. Rows and columns beyond the fourth are never looked at.
\<close>

theorem eq_characterised:
  "Transformation_eq h self other tol =
     (case getattr_matrix h self of
        Inl e \<Rightarrow> False
      | Inr A \<Rightarrow>
          (case operand_matrix h other of
             Inl e \<Rightarrow> False
           | Inr B \<Rightarrow> matrices_close h A B tol))"
  by (rule eq_as_close)

lemma ev_simps:
  "get_list h (VList a) = (if a < length (cells h) then Some (cells h ! a) else None)"
  "get_list h VNone = None" "get_list h (VNum x) = None"
  by (simp_all add: get_list_def)

text \<open>
  Claim C9 as stated fails: an operand whose matrix has another shape (four rows of five
  numbers) compares equal to the 4x4 identity.
\<close>

theorem eq_wide_counterexample:
  "matrix_of wide_store 0 = Inr [[1, 0, 0, 0], [0, 1, 0, 0], [0, 0, 1, 0], [0, 0, 0, 1]]
   \<and> matrix_of wide_store 1 =
       Inr [[1, 0, 0, 0, 7], [0, 1, 0, 0, 7], [0, 0, 1, 0, 7], [0, 0, 0, 1, 7]]
   \<and> Transformation_eq wide_store 0 (Inst 1) default_tol"
  by (simp add: eq_as_close wide_store_def matrix_of_def getattr_matrix_def
      operand_matrix_def read_matrix_def read_row_def read_num_def ev_simps
      matrices_close_def cells_close_def entry_def subscript_def py_index_def norm_index_def
      default_tol_def)

text \<open>
  Claim C2 fails on the code. \<^verbatim>\<open>copy\<close> copies the outer list only, so the copy shares
  its four row lists with the original: in the store \<open>identity_store\<close>, \<^verbatim>\<open>C = T.copy()\<close>
  returns a new instance, \<^verbatim>\<open>T[0, 0]\<close> is 1, and after \<^verbatim>\<open>C[0, 0] = 5\<close> on the copy
  \<^verbatim>\<open>T[0, 0]\<close> is 5.
\<close>

theorem copy_shares_rows:
  "fst (Transformation_copy 0 identity_store) = Inr 1
   \<and> Transformation_getitem (snd (Transformation_copy 0 identity_store)) 0 0 0 = Inr (VNum 1)
   \<and> fst (Transformation_setitem 1 0 0 (VNum 5) (snd (Transformation_copy 0 identity_store)))
       = Inr ()
   \<and> Transformation_getitem
       (snd (Transformation_setitem 1 0 0 (VNum 5) (snd (Transformation_copy 0 identity_store))))
       0 0 0 = Inr (VNum 5)"
  by (simp add: identity_store_def Transformation_copy_def Transformation_setitem_def
      Transformation_getitem_def bindM_def readM_def getattr_matrix_def list_copy_def ev_simps
      new_instance_def type_of_def Transformation_init_def setattr_matrix_def entry_def
      subscript_def py_index_def norm_index_def store_subscript_def)

lemma read_num_Inr: "read_num v = Inr x \<Longrightarrow> v = VNum x"
  by (cases v) (simp_all add: read_num_def)

lemma read_row_struct:
  assumes "read_row h v = Inr r"
  shows "\<exists>a. v = VList a \<and> a < length (cells h) \<and> cells h ! a = map VNum r"
proof -
  from assms obtain xs where g: "get_list h v = Some xs"
    and s: "sequence_res (map read_num xs) = Inr r"
    by (auto simp: read_row_def split: option.splits)
  from s have m: "map read_num xs = map Inr r" by (rule sequence_res_all_Inr)
  have "xs = map VNum r"
  proof (rule nth_equalityI)
    show "length xs = length (map VNum r)" using arg_cong [OF m, of length] by simp
  next
    fix i assume i: "i < length xs"
    then have "read_num (xs ! i) = Inr (r ! i)"
      using arg_cong [OF m, of "\<lambda>l. l ! i"] arg_cong [OF m, of length] by simp
    then show "xs ! i = map VNum r ! i"
      using i arg_cong [OF m, of length] by (simp add: read_num_Inr)
  qed
  with g show ?thesis
    by (cases v) (auto simp: get_list_def split: if_splits)
qed

lemma read_matrix_struct:
  assumes "read_matrix h m = Inr A"
  shows "\<exists>a. m = VList a \<and> a < length (cells h) \<and> length (cells h ! a) = length A
           \<and> (\<forall>i<length A. read_row h (cells h ! a ! i) = Inr (A ! i))"
proof -
  from assms obtain rows where g: "get_list h m = Some rows"
    and s: "sequence_res (map (read_row h) rows) = Inr A"
    by (auto simp: read_matrix_def split: option.splits)
  from s have m: "map (read_row h) rows = map Inr A" by (rule sequence_res_all_Inr)
  have len: "length rows = length A" using arg_cong [OF m, of length] by simp
  have "read_row h (rows ! i) = Inr (A ! i)" if "i < length A" for i
    using that arg_cong [OF m, of "\<lambda>l. l ! i"] len by simp
  with g len show ?thesis
    by (cases m) (auto simp: get_list_def split: if_splits)
qed

lemma is_shape_rows: "is_shape r c A \<Longrightarrow> length A = r \<and> (\<forall>i<r. length (A ! i) = c)"
  by (auto simp: is_shape_def list_all_length)

text \<open>The four row lists of a 4x4 matrix in the store.\<close>

lemma matrix44_struct:
  assumes "read_matrix h m = Inr A" and "is_shape 4 4 A"
  shows "\<exists>a. m = VList a \<and> a < length (cells h) \<and> length (cells h ! a) = 4
           \<and> (\<forall>i<4. \<exists>r. cells h ! a ! i = VList r \<and> r < length (cells h) \<and> r \<noteq> a
                  \<and> cells h ! r = map VNum (A ! i) \<and> length (A ! i) = 4)"
proof -
  from is_shape_rows [OF assms(2)] have len: "length A = 4"
    and rows: "\<forall>i<4. length (A ! i) = 4" by simp_all
  from read_matrix_struct [OF assms(1)] obtain a where a: "m = VList a" "a < length (cells h)"
    "length (cells h ! a) = length A"
    and rd: "\<forall>i<length A. read_row h (cells h ! a ! i) = Inr (A ! i)" by blast
  have "\<exists>r. cells h ! a ! i = VList r \<and> r < length (cells h) \<and> r \<noteq> a
          \<and> cells h ! r = map VNum (A ! i) \<and> length (A ! i) = 4" if i: "i < 4" for i
  proof -
    from rd i len have "read_row h (cells h ! a ! i) = Inr (A ! i)" by simp
    from read_row_struct [OF this] obtain r where r: "cells h ! a ! i = VList r"
      "r < length (cells h)" "cells h ! r = map VNum (A ! i)" by blast
    have "r \<noteq> a"
    proof
      assume "r = a"
      with r(3) have "cells h ! a ! i = VNum (A ! i ! i)" using rows i by simp
      with r(1) show False by simp
    qed
    with r rows i show ?thesis by simp
  qed
  with a len show ?thesis by simp
qed

lemma index4: "0 \<le> i \<Longrightarrow> i < 4 \<Longrightarrow> norm_index 4 i = Some (nat i) \<and> nat i < 4"
  by (simp add: norm_index_def)

lemma entry_read:
  assumes "read_matrix h m = Inr A" and "is_shape 4 4 A"
    and "0 \<le> i" "i < 4" "0 \<le> j" "j < 4"
  shows "entry h m i j = Inr (VNum (A ! nat i ! nat j))"
proof -
  from matrix44_struct [OF assms(1,2)] obtain a where a: "m = VList a" "a < length (cells h)"
    "length (cells h ! a) = 4"
    and rows: "\<forall>i<4. \<exists>r. cells h ! a ! i = VList r \<and> r < length (cells h) \<and> r \<noteq> a
                  \<and> cells h ! r = map VNum (A ! i) \<and> length (A ! i) = 4" by blast
  from index4 [OF assms(3,4)] have i: "norm_index 4 i = Some (nat i)" "nat i < 4" by simp_all
  from index4 [OF assms(5,6)] have j: "norm_index 4 j = Some (nat j)" "nat j < 4" by simp_all
  from rows i(2) obtain r where r: "cells h ! a ! nat i = VList r" "r < length (cells h)"
    "cells h ! r = map VNum (A ! nat i)" "length (A ! nat i) = 4" by blast
  show ?thesis
    using a i j r by (simp add: entry_def subscript_def get_list_def py_index_def)
qed

lemma cells_close_same:
  assumes "read_matrix h m = Inr A" and "is_shape 4 4 A" and "0 \<le> tol"
    and "0 \<le> i" "i < 4" "0 \<le> j" "j < 4"
  shows "cells_close h m m tol i j"
  using entry_read [OF assms(1,2,4,5,6,7)] assms(3) by (simp add: cells_close_def)

lemma matrices_close_same:
  assumes "read_matrix h m = Inr A" and "is_shape 4 4 A" and "0 \<le> tol"
  shows "matrices_close h m m tol"
  unfolding matrices_close_def
  by (simp add: cells_close_same [OF assms])

lemma getattr_matrix_cells [simp]: "getattr_matrix (h\<lparr>cells := c\<rparr>) a = getattr_matrix h a"
  by (simp add: getattr_matrix_def)

lemma index4_py:
  "- 4 \<le> i \<Longrightarrow> i < 4 \<Longrightarrow> \<exists>k. norm_index 4 i = Some k \<and> k < 4"
  by (auto simp: norm_index_def)

text \<open>
  An assignment to an entry of a 4x4 matrix through one instance, and the read through
  another instance that holds the same list object. The indices are Python's: from -4
  to 3.
\<close>

lemma setitem_getitem:
  assumes T: "getattr_matrix h T = Inr m" and S: "getattr_matrix h S = Inr m"
    and "read_matrix h m = Inr A" and "is_shape 4 4 A"
    and "- 4 \<le> i" "i < 4" "- 4 \<le> j" "j < 4"
  shows "\<exists>h'. Transformation_setitem S i j v h = (Inr (), h')
           \<and> objs h' = objs h \<and> length (cells h') = length (cells h)
           \<and> Transformation_getitem h' T i j = Inr v"
proof -
  from matrix44_struct [OF assms(3,4)] obtain a where a: "m = VList a" "a < length (cells h)"
    "length (cells h ! a) = 4"
    and rows: "\<forall>i<4. \<exists>r. cells h ! a ! i = VList r \<and> r < length (cells h) \<and> r \<noteq> a
                  \<and> cells h ! r = map VNum (A ! i) \<and> length (A ! i) = 4" by blast
  from index4_py [OF assms(5,6)] obtain k where i: "norm_index 4 i = Some k" "k < 4" by blast
  from index4_py [OF assms(7,8)] obtain l where j: "norm_index 4 j = Some l" "l < 4" by blast
  from rows i(2) obtain r where r: "cells h ! a ! k = VList r" "r < length (cells h)"
    "r \<noteq> a" "cells h ! r = map VNum (A ! k)" "length (A ! k) = 4" by blast
  let ?h = "h\<lparr>cells := (cells h)[r := (map VNum (A ! k))[l := v]]\<rparr>"
  have set: "Transformation_setitem S i j v h = (Inr (), ?h)"
    using S a i j r
    by (simp add: Transformation_setitem_def bindM_def readM_def subscript_def get_list_def
        py_index_def store_subscript_def)
  have "getattr_matrix ?h T = Inr m"
    using T by simp
  then have "Transformation_getitem ?h T i j = Inr v"
    using a i j r
    by (simp add: Transformation_getitem_def entry_def subscript_def get_list_def py_index_def)
  with set show ?thesis by simp
qed

text \<open>
  Claim C10. Let \<open>T\<close> be an instance with a \<open>matrix\<close> attribute \<open>m\<close>. Then
  \<^verbatim>\<open>T.to_data()['matrix']\<close> is the reference \<open>m\<close> itself, and
  \<^verbatim>\<open>Transformation.from_data(T.to_data())\<close> is a new instance \<open>T'\<close> whose \<open>matrix\<close> attribute
  is \<open>m\<close> again: no list object is created, the two instances hold one matrix. When \<open>m\<close>
  is a 4x4 matrix of numbers, \<^verbatim>\<open>T' == T\<close> and \<^verbatim>\<open>T == T'\<close> hold, and an assignment
  \<^verbatim>\<open>[i, j] = v\<close> through either instance is read back through the other.
\<close>

theorem serialisation_shares_matrix:
  assumes "getattr_matrix h T = Inr m"
  shows "\<exists>d T' h'.
           Transformation_to_data h T = Inr d \<and> map_of d ''matrix'' = Some m
         \<and> Transformation_from_data Transformation d h = (Inr T', h')
         \<and> T' \<noteq> T \<and> cells h' = cells h
         \<and> getattr_matrix h' T' = Inr m \<and> getattr_matrix h' T = Inr m
         \<and> (\<forall>A. read_matrix h m = Inr A \<and> is_shape 4 4 A \<longrightarrow>
               Transformation_eq h' T' (Inst T) default_tol
             \<and> Transformation_eq h' T (Inst T') default_tol
             \<and> (\<forall>i j v. - 4 \<le> i \<and> i < 4 \<and> - 4 \<le> j \<and> j < 4 \<longrightarrow>
                   (\<exists>h''. Transformation_setitem T' i j v h' = (Inr (), h'')
                      \<and> Transformation_getitem h'' T i j = Inr v)
                 \<and> (\<exists>h''. Transformation_setitem T i j v h' = (Inr (), h'')
                      \<and> Transformation_getitem h'' T' i j = Inr v)))"
proof -
  let ?T = "length (objs h)"
  let ?h = "h\<lparr>objs := objs h @ [(Transformation, Some m)]\<rparr>"
  have lt: "T < length (objs h)"
    using assms(1) by (simp add: getattr_matrix_def split: if_splits)
  have d: "Transformation_to_data h T = Inr [(''matrix'', m)]"
    using assms(1) by (simp add: Transformation_to_data_def)
  have f: "Transformation_from_data Transformation [(''matrix'', m)] h = (Inr ?T, ?h)"
    by (simp add: Transformation_from_data_def new_instance_Transformation)
  have g1: "getattr_matrix ?h ?T = Inr m" by (simp add: getattr_matrix_def)
  have g2: "getattr_matrix ?h T = Inr m"
    using assms(1) lt by (simp add: getattr_matrix_def nth_append)
  have shared: "Transformation_eq ?h ?T (Inst T) default_tol
             \<and> Transformation_eq ?h T (Inst ?T) default_tol
             \<and> (\<forall>i j v. - 4 \<le> i \<and> i < 4 \<and> - 4 \<le> j \<and> j < 4 \<longrightarrow>
                   (\<exists>h''. Transformation_setitem ?T i j v ?h = (Inr (), h'')
                      \<and> Transformation_getitem h'' T i j = Inr v)
                 \<and> (\<exists>h''. Transformation_setitem T i j v ?h = (Inr (), h'')
                      \<and> Transformation_getitem h'' ?T i j = Inr v))"
    if A: "read_matrix h m = Inr A" "is_shape 4 4 A" for A
  proof -
    have rd: "read_matrix ?h m = Inr A" using A(1) by simp
    have t: "0 \<le> default_tol" by (simp add: default_tol_def)
    have e: "Transformation_eq ?h ?T (Inst T) default_tol"
      "Transformation_eq ?h T (Inst ?T) default_tol"
      using g1 g2 matrices_close_same [OF rd A(2) t]
      by (simp_all add: eq_as_close operand_matrix_def)
    have "(\<exists>h''. Transformation_setitem ?T i j v ?h = (Inr (), h'')
              \<and> Transformation_getitem h'' T i j = Inr v)
         \<and> (\<exists>h''. Transformation_setitem T i j v ?h = (Inr (), h'')
              \<and> Transformation_getitem h'' ?T i j = Inr v)"
      if ij: "- 4 \<le> i" "i < 4" "- 4 \<le> j" "j < 4" for i j v
      using setitem_getitem [OF g2 g1 rd A(2) ij, of v] setitem_getitem [OF g1 g2 rd A(2) ij, of v]
      by blast
    with e show ?thesis by blast
  qed
  have "?T \<noteq> T" using lt by simp
  with d f g1 g2 shared show ?thesis
    by (intro exI [of _ "[(''matrix'', m)]"] exI [of _ ?T] exI [of _ ?h]) auto
qed

theorem serialisation_shares_matrix_witness:
  "\<exists>d T' h'.
       Transformation_to_data identity_store 0 = Inr d \<and> map_of d ''matrix'' = Some (VList 4)
     \<and> Transformation_from_data Transformation d identity_store = (Inr T', h')
     \<and> T' \<noteq> 0 \<and> cells h' = cells identity_store
     \<and> getattr_matrix h' T' = Inr (VList 4) \<and> getattr_matrix h' 0 = Inr (VList 4)
     \<and> Transformation_eq h' T' (Inst 0) default_tol
     \<and> (\<exists>h''. Transformation_setitem T' 1 2 (VNum 9) h' = (Inr (), h'')
            \<and> Transformation_getitem h'' 0 1 2 = Inr (VNum 9))"
proof -
  have g: "getattr_matrix identity_store 0 = Inr (VList 4)"
    by (simp add: identity_store_def getattr_matrix_def)
  have r: "read_matrix identity_store (VList 4) = Inr (identity_matrix 4)"
    by (simp add: identity_store_def read_matrix_def read_row_def read_num_def ev_simps
        identity_matrix_def upt_rec numeral_eq_Suc)
  have s: "is_shape 4 4 (identity_matrix 4)"
    by (simp add: is_shape_def identity_matrix_def list_all_iff)
  from serialisation_shares_matrix [OF g] obtain d T' h'
    where 1: "Transformation_to_data identity_store 0 = Inr d"
      "map_of d ''matrix'' = Some (VList 4)"
      "Transformation_from_data Transformation d identity_store = (Inr T', h')"
      "T' \<noteq> 0" "cells h' = cells identity_store"
      "getattr_matrix h' T' = Inr (VList 4)" "getattr_matrix h' 0 = Inr (VList 4)"
      and 2: "\<forall>A. read_matrix identity_store (VList 4) = Inr A \<and> is_shape 4 4 A \<longrightarrow>
               Transformation_eq h' T' (Inst 0) default_tol
             \<and> Transformation_eq h' 0 (Inst T') default_tol
             \<and> (\<forall>i j v. - 4 \<le> i \<and> i < 4 \<and> - 4 \<le> j \<and> j < 4 \<longrightarrow>
                   (\<exists>h''. Transformation_setitem T' i j v h' = (Inr (), h'')
                      \<and> Transformation_getitem h'' 0 i j = Inr v)
                 \<and> (\<exists>h''. Transformation_setitem 0 i j v h' = (Inr (), h'')
                      \<and> Transformation_getitem h'' T' i j = Inr v))"
    by blast
  from 2 r s have e: "Transformation_eq h' T' (Inst 0) default_tol"
    and m: "\<forall>i j v. - 4 \<le> i \<and> i < 4 \<and> - 4 \<le> j \<and> j < 4 \<longrightarrow>
                   (\<exists>h''. Transformation_setitem T' i j v h' = (Inr (), h'')
                      \<and> Transformation_getitem h'' 0 i j = Inr v)
                 \<and> (\<exists>h''. Transformation_setitem 0 i j v h' = (Inr (), h'')
                      \<and> Transformation_getitem h'' T' i j = Inr v)"
    by blast+
  from m have "\<exists>h''. Transformation_setitem T' 1 2 (VNum 9) h' = (Inr (), h'')
                      \<and> Transformation_getitem h'' 0 1 2 = Inr (VNum 9)"
    by simp
  with 1 e show ?thesis by blast
qed

lemma new_matrix_store:
  "new_matrix A h = (VList (length (cells h) + length A), matrix_store (cells h) (objs h) A)"
  by (simp add: new_matrix_eq matrix_store_def)

lemma objs_matrix_store [simp]: "objs (matrix_store Cs Os A) = Os"
  by (simp add: matrix_store_def)

lemma read_matrix_store:
  "read_matrix (matrix_store Cs Os A) (VList (length Cs + length A)) = Inr A"
  using read_new_matrix [of A "\<lparr>cells = Cs, objs = Os\<rparr>"]
  by (simp add: new_matrix_store)

lemma is_shape_update:
  "is_shape 4 4 A \<Longrightarrow> is_shape 4 4 (A[i := (A ! i)[j := x]])"
  by (cases "i < length A") (auto simp: is_shape_def list_all_length nth_list_update)

lemma subscript_matrix_store:
  assumes "is_shape 4 4 A" and "0 \<le> i" "i < 4"
  shows "subscript (matrix_store Cs Os A) (VList (length Cs + 4)) i = Inr (VList (length Cs + nat i))"
proof -
  from is_shape_rows [OF assms(1)] have len: "length A = 4" by simp
  from index4 [OF assms(2,3)] have i: "norm_index 4 i = Some (nat i)" "nat i < 4" by simp_all
  show ?thesis
    using len i
    by (simp add: subscript_def get_list_def matrix_store_def nth_append py_index_def)
qed

lemma store_matrix_store:
  assumes "is_shape 4 4 A" and "0 \<le> i" "i < 4" and "0 \<le> j" "j < 4"
  shows "store_subscript (VList (length Cs + nat i)) j (VNum x) (matrix_store Cs Os A)
           = (Inr (), matrix_store Cs Os (A[nat i := (A ! nat i)[nat j := x]]))"
proof -
  from is_shape_rows [OF assms(1)] have len: "length A = 4"
    and rows: "\<forall>i<4. length (A ! i) = 4" by simp_all
  from index4 [OF assms(2,3)] have i: "nat i < 4" by simp
  from index4 [OF assms(4,5)] have j: "norm_index 4 j = Some (nat j)" "nat j < 4" by simp_all
  from rows i have row: "length (A ! nat i) = 4" by simp
  have g: "get_list (matrix_store Cs Os A) (VList (length Cs + nat i)) = Some (map VNum (A ! nat i))"
    using len i by (simp add: get_list_def matrix_store_def nth_append)
  have "store_subscript (VList (length Cs + nat i)) j (VNum x) (matrix_store Cs Os A)
      = (Inr (), (matrix_store Cs Os A)\<lparr>cells := (cells (matrix_store Cs Os A))
            [length Cs + nat i := (map VNum (A ! nat i))[nat j := VNum x]]\<rparr>)"
    using j row by (simp add: store_subscript_def g)
  also have "(matrix_store Cs Os A)\<lparr>cells := (cells (matrix_store Cs Os A))
            [length Cs + nat i := (map VNum (A ! nat i))[nat j := VNum x]]\<rparr>
      = matrix_store Cs Os (A[nat i := (A ! nat i)[nat j := x]])"
    using len i by (simp add: matrix_store_def list_update_append map_update)
  finally show ?thesis .
qed

text \<open>The inner loop of \<^verbatim>\<open>from_list\<close> on a freshly allocated matrix.\<close>

lemma from_list_cols_run:
  assumes "is_shape 4 4 A" and "0 \<le> i" "i < 4" and "\<forall>j\<in>set js. 0 \<le> j \<and> j < 4"
  shows "\<exists>A'. is_shape 4 4 A'
           \<and> snd (from_list_cols (VList (length Cs + 4)) (map VNum xs) i js (matrix_store Cs Os A))
               = matrix_store Cs Os A'
           \<and> (fst (from_list_cols (VList (length Cs + 4)) (map VNum xs) i js (matrix_store Cs Os A))
                 = Inr () \<and> (\<forall>j\<in>set js. i * 4 + j < int (length xs))
              \<or> fst (from_list_cols (VList (length Cs + 4)) (map VNum xs) i js (matrix_store Cs Os A))
                 = Inl IndexError \<and> (\<exists>j\<in>set js. \<not> i * 4 + j < int (length xs)))"
  using assms
proof (induction js arbitrary: A)
  case Nil
  then show ?case by auto
next
  case (Cons j js)
  from Cons.prems have j: "0 \<le> j" "j < 4" and js: "\<forall>j\<in>set js. 0 \<le> j \<and> j < 4" by simp_all
  show ?case
  proof (cases "i * 4 + j < int (length xs)")
    case False
    with Cons.prems(2) j have "py_index (map VNum xs) (i * 4 + j) = Inl IndexError"
      by (simp add: py_index_def norm_index_def)
    with False Cons.prems(1) show ?thesis by auto
  next
    case True
    with Cons.prems(2) j
    have p: "py_index (map VNum xs) (i * 4 + j) = Inr (VNum (xs ! nat (i * 4 + j)))"
      by (simp add: py_index_def norm_index_def)
    let ?A = "A[nat i := (A ! nat i)[nat j := xs ! nat (i * 4 + j)]]"
    have step: "from_list_cols (VList (length Cs + 4)) (map VNum xs) i (j # js) (matrix_store Cs Os A)
        = from_list_cols (VList (length Cs + 4)) (map VNum xs) i js (matrix_store Cs Os ?A)"
      by (simp add: p py_float_def subscript_matrix_store [OF Cons.prems(1,2,3)]
          store_matrix_store [OF Cons.prems(1,2,3) j])
    from Cons.IH [OF is_shape_update [OF Cons.prems(1)] Cons.prems(2,3) js, of "nat i" "nat j"
        "xs ! nat (i * 4 + j)"] True
    show ?thesis unfolding step by auto
  qed
qed

lemma from_list_rows_run:
  assumes "is_shape 4 4 A" and "\<forall>i\<in>set is. 0 \<le> i \<and> i < 4"
  shows "\<exists>A'. is_shape 4 4 A'
           \<and> snd (from_list_rows (VList (length Cs + 4)) (map VNum xs) is (matrix_store Cs Os A))
               = matrix_store Cs Os A'
           \<and> (fst (from_list_rows (VList (length Cs + 4)) (map VNum xs) is (matrix_store Cs Os A))
                 = Inr () \<and> (\<forall>i\<in>set is. \<forall>j\<in>{0, 1, 2, 3}. i * 4 + j < int (length xs))
              \<or> fst (from_list_rows (VList (length Cs + 4)) (map VNum xs) is (matrix_store Cs Os A))
                 = Inl IndexError)"
  using assms
proof (induction "is" arbitrary: A)
  case Nil
  then show ?case by auto
next
  case (Cons i "is")
  from Cons.prems have i: "0 \<le> i" "i < 4" and "is": "\<forall>i\<in>set is. 0 \<le> i \<and> i < 4" by simp_all
  let ?r = "from_list_cols (VList (length Cs + 4)) (map VNum xs) i [0, 1, 2, 3] (matrix_store Cs Os A)"
  from from_list_cols_run [OF Cons.prems(1) i, of "[0, 1, 2, 3]" Cs xs Os]
  obtain A' where A': "is_shape 4 4 A'" "snd ?r = matrix_store Cs Os A'"
    and r: "fst ?r = Inr () \<and> (\<forall>j\<in>set [0, 1, 2, 3]. i * 4 + j < int (length xs))
            \<or> fst ?r = Inl IndexError \<and> (\<exists>j\<in>set [0, 1, 2, 3]. \<not> i * 4 + j < int (length xs))"
    by auto
  have step: "from_list_rows (VList (length Cs + 4)) (map VNum xs) (i # is) (matrix_store Cs Os A)
      = (case ?r of (Inl e, h1) \<Rightarrow> (Inl e, h1)
         | (Inr u, h1) \<Rightarrow> from_list_rows (VList (length Cs + 4)) (map VNum xs) is h1)"
    by (rule from_list_rows.simps)
  from r show ?case
  proof
    assume ok: "fst ?r = Inr () \<and> (\<forall>j\<in>set [0, 1, 2, 3]. i * 4 + j < int (length xs))"
    then have "?r = (Inr (), matrix_store Cs Os A')" using A'(2) by (metis prod.collapse)
    then have s: "from_list_rows (VList (length Cs + 4)) (map VNum xs) (i # is) (matrix_store Cs Os A)
        = from_list_rows (VList (length Cs + 4)) (map VNum xs) is (matrix_store Cs Os A')"
      unfolding step by simp
    from Cons.IH [OF A'(1) "is"] ok show ?thesis unfolding s by auto
  next
    assume bad: "fst ?r = Inl IndexError \<and> (\<exists>j\<in>set [0, 1, 2, 3]. \<not> i * 4 + j < int (length xs))"
    then have "?r = (Inl IndexError, matrix_store Cs Os A')" using A'(2) by (metis prod.collapse)
    then have "from_list_rows (VList (length Cs + 4)) (map VNum xs) (i # is) (matrix_store Cs Os A)
        = (Inl IndexError, matrix_store Cs Os A')"
      unfolding step by simp
    with A'(1) show ?thesis by auto
  qed
qed

lemma from_list_cols_step:
  assumes "is_shape 4 4 A" and "0 \<le> i" "i < 4" and "0 \<le> j" "j < 4"
    and "i * 4 + j < int (length xs)"
  shows "from_list_cols (VList (length Cs + 4)) (map VNum xs) i (j # js) (matrix_store Cs Os A)
        = from_list_cols (VList (length Cs + 4)) (map VNum xs) i js
            (matrix_store Cs Os (A[nat i := (A ! nat i)[nat j := xs ! nat (i * 4 + j)]]))"
proof -
  from assms(2,4,6)
  have p: "py_index (map VNum xs) (i * 4 + j) = Inr (VNum (xs ! nat (i * 4 + j)))"
    by (simp add: py_index_def norm_index_def)
  show ?thesis
    by (simp add: p py_float_def subscript_matrix_store [OF assms(1,2,3)]
        store_matrix_store [OF assms(1,2,3,4,5)])
qed

lemma is_shape_fill_cols:
  "is_shape 4 4 A \<Longrightarrow> is_shape 4 4 (fill_cols xs i js A)"
  by (induction js arbitrary: A) (simp_all add: is_shape_update)

lemma from_list_cols_fill:
  assumes "is_shape 4 4 A" and "0 \<le> i" "i < 4"
    and "\<forall>j\<in>set js. 0 \<le> j \<and> j < 4 \<and> i * 4 + j < int (length xs)"
  shows "from_list_cols (VList (length Cs + 4)) (map VNum xs) i js (matrix_store Cs Os A)
           = (Inr (), matrix_store Cs Os (fill_cols xs i js A))"
  using assms
proof (induction js arbitrary: A)
  case Nil
  then show ?case by simp
next
  case (Cons j js)
  from Cons.prems(4) have j: "0 \<le> j" "j < 4" "i * 4 + j < int (length xs)"
    and js: "\<forall>j\<in>set js. 0 \<le> j \<and> j < 4 \<and> i * 4 + j < int (length xs)" by simp_all
  show ?case
    unfolding from_list_cols_step [OF Cons.prems(1,2,3) j]
    using Cons.IH [OF is_shape_update [OF Cons.prems(1)] Cons.prems(2,3) js] by simp
qed

lemma from_list_rows_fill:
  assumes "is_shape 4 4 A"
    and "\<forall>i\<in>set is. 0 \<le> i \<and> i < 4 \<and> i * 4 + 3 < int (length xs)"
  shows "from_list_rows (VList (length Cs + 4)) (map VNum xs) is (matrix_store Cs Os A)
           = (Inr (), matrix_store Cs Os (fill_rows xs is A))"
  using assms
proof (induction "is" arbitrary: A)
  case Nil
  then show ?case by simp
next
  case (Cons i "is")
  from Cons.prems(2) have i: "0 \<le> i" "i < 4" "i * 4 + 3 < int (length xs)"
    and "is": "\<forall>i\<in>set is. 0 \<le> i \<and> i < 4 \<and> i * 4 + 3 < int (length xs)" by simp_all
  from i have js: "\<forall>j\<in>set [0, 1, 2, 3]. 0 \<le> j \<and> j < 4 \<and> i * 4 + j < int (length xs)"
    by simp
  have "from_list_rows (VList (length Cs + 4)) (map VNum xs) (i # is) (matrix_store Cs Os A)
      = from_list_rows (VList (length Cs + 4)) (map VNum xs) is
          (matrix_store Cs Os (fill_cols xs i [0, 1, 2, 3] A))"
    by (simp only: from_list_rows.simps from_list_cols_fill [OF Cons.prems(1) i(1,2) js]
        prod.case sum.case)
  also have "\<dots> = (Inr (), matrix_store Cs Os (fill_rows xs is (fill_cols xs i [0, 1, 2, 3] A)))"
    by (rule Cons.IH [OF is_shape_fill_cols [OF Cons.prems(1)] "is"])
  finally show ?case by (simp only: fill_rows.simps)
qed

lemma py_index_numbers:
  "0 \<le> k \<Longrightarrow> k < int (length xs) \<Longrightarrow> py_index (map VNum xs) k = Inr (VNum (xs ! nat k))"
  by (simp add: py_index_def norm_index_def)

lemma read_matrix_store4:
  "length A = 4 \<Longrightarrow> read_matrix (matrix_store Cs Os A) (VList (length Cs + 4)) = Inr A"
  using read_matrix_store [of Cs Os A] by simp

lemma from_list_short:
  assumes "length xs < 16"
  shows "fst (Transformation_from_list c (map VNum xs) h) = Inl IndexError"
proof -
  let ?m = "VList (length (cells h) + 4)"
  let ?h = "matrix_store (cells h) (objs h) (identity_matrix 4)"
  let ?r = "from_list_rows ?m (map VNum xs) [0, 1, 2, 3] ?h"
  have s: "is_shape 4 4 (identity_matrix 4)"
    by (simp add: is_shape_def identity_matrix_def list_all_iff)
  have k: "kernel_call (\<lambda>h. Inr (identity_matrix 4)) h = (Inr ?m, ?h)"
    by (simp add: kernel_call_def result_matrix_def new_matrix_store identity_matrix_def)
  from from_list_rows_run [OF s, of "[0, 1, 2, 3]" "cells h" xs "objs h"] assms
  have "fst ?r = Inl IndexError" by auto
  then obtain h1 where "?r = (Inl IndexError, h1)" by (metis prod.collapse)
  then show ?thesis
    by (simp add: Transformation_from_list_def bindM_def k del: from_list_rows.simps)
qed

lemma list_update_Cons_numeral:
  "(x # xs)[numeral n := y] = x # xs[pred_numeral n := y]"
  by (simp add: numeral_eq_Suc)

lemma from_list_long:
  assumes "16 \<le> length xs"
  shows "outcome (Transformation_from_list Transformation (map VNum xs) h) =
     Inr [[xs ! 0, xs ! 1, xs ! 2, xs ! 3], [xs ! 4, xs ! 5, xs ! 6, xs ! 7],
          [xs ! 8, xs ! 9, xs ! 10, xs ! 11], [xs ! 12, xs ! 13, xs ! 14, xs ! 15]]"
proof -
  let ?m = "VList (length (cells h) + 4)"
  let ?h = "matrix_store (cells h) (objs h) (identity_matrix 4)"
  let ?A = "[[xs ! 0, xs ! 1, xs ! 2, xs ! 3], [xs ! 4, xs ! 5, xs ! 6, xs ! 7],
          [xs ! 8, xs ! 9, xs ! 10, xs ! 11], [xs ! 12, xs ! 13, xs ! 14, xs ! 15]]"
  have k: "kernel_call (\<lambda>h. Inr (identity_matrix 4)) h = (Inr ?m, ?h)"
    by (simp add: kernel_call_def result_matrix_def new_matrix_store identity_matrix_def)
  have I: "identity_matrix 4 = [[1, 0, 0, 0], [0, 1, 0, 0], [0, 0, 1, 0], [0, 0, 0, 1]]"
    by (simp add: identity_matrix_def upt_rec numeral_eq_Suc)
  have s: "is_shape 4 4 (identity_matrix 4)"
    by (simp add: is_shape_def identity_matrix_def list_all_iff)
  have fill: "fill_rows xs [0, 1, 2, 3] (identity_matrix 4) = ?A"
    by (simp add: I list_update_Cons_numeral)
  have loop: "from_list_rows ?m (map VNum xs) [0, 1, 2, 3] ?h
      = (Inr (), matrix_store (cells h) (objs h) ?A)"
    using from_list_rows_fill [OF s, of "[0, 1, 2, 3]" xs "cells h" "objs h"] assms
    by (simp only: fill) simp
  have rd: "read_matrix (matrix_store (cells h) (objs h) ?A) ?m = Inr ?A"
    by (rule read_matrix_store4) simp
  show ?thesis
    using rd
    by (simp add: Transformation_from_list_def bindM_def k loop new_instance_Transformation
        outcome_def matrix_of_def getattr_matrix_def del: from_list_rows.simps)
qed

text \<open>
  Claim C4, as amended. For a list of numbers shorter than 16, \<^verbatim>\<open>Transformation.from_list\<close>
  raises \<open>IndexError\<close> (the specification's \<open>DimensionMismatchError\<close>). For a list of 16
  numbers or more it returns a \<open>Transformation\<close> whose matrix holds the first 16 numbers
  in row-major order, so that the translation components are the numbers at the indices
  3, 7 and 11; numbers after the sixteenth are ignored.
\<close>

theorem from_list_first_16:
  "(length xs < 16 \<longrightarrow>
      fst (Transformation_from_list Transformation (map VNum xs) h) = Inl IndexError)
   \<and> (16 \<le> length xs \<longrightarrow>
      outcome (Transformation_from_list Transformation (map VNum xs) h) =
        Inr [[xs ! 0, xs ! 1, xs ! 2, xs ! 3], [xs ! 4, xs ! 5, xs ! 6, xs ! 7],
             [xs ! 8, xs ! 9, xs ! 10, xs ! 11], [xs ! 12, xs ! 13, xs ! 14, xs ! 15]])"
  using from_list_short [of xs Transformation h] from_list_long [of xs h] by blast

theorem from_list_first_16_witness:
  "fst (Transformation_from_list Transformation (map VNum [1, 2, 3]) empty_store)
     = Inl IndexError
   \<and> outcome (Transformation_from_list Transformation
        (map VNum [1, 0, 0, 3, 0, 1, 0, 4, 0, 0, 1, 5, 0, 0, 0, 1]) empty_store) =
      Inr [[1, 0, 0, 3], [0, 1, 0, 4], [0, 0, 1, 5], [0, 0, 0, 1]]"
  using from_list_first_16 [of "[1, 2, 3]" empty_store]
    from_list_first_16 [of "[1, 0, 0, 3, 0, 1, 0, 4, 0, 0, 1, 5, 0, 0, 0, 1]" empty_store]
  by simp

text \<open>
  Claim C4 as stated fails: a list of 17 numbers, whose length is not 16, raises nothing;
  the seventeenth number is dropped.
\<close>

theorem from_list_17_counterexample:
  "length [1, 0, 0, 3, 0, 1, 0, 4, 0, 0, 1, 5, 0, 0, 0, 1, 9 :: real] = 17
   \<and> outcome (Transformation_from_list Transformation
        (map VNum [1, 0, 0, 3, 0, 1, 0, 4, 0, 0, 1, 5, 0, 0, 0, 1, 9]) empty_store) =
      Inr [[1, 0, 0, 3], [0, 1, 0, 4], [0, 0, 1, 5], [0, 0, 0, 1]]"
  using from_list_long [of "[1, 0, 0, 3, 0, 1, 0, 4, 0, 0, 1, 5, 0, 0, 0, 1, 9]" empty_store]
  by simp

lemmas kernel_eval = matrix_inverse_def matrix_determinant_def cofactor_def det3_def without_def
  is_shape_def multiply_matrices_def transpose_matrix_def dot_vectors_def singular_tol_def

lemma mff_doc: "matrix_from_frame doc_frame = [[1, 0, 0, 2], [0, 1, 0, 5], [0, 0, 1, 0], [0, 0, 0, 1]]"
  by (simp add: matrix_from_frame_def doc_frame_def cross_vectors_def)

lemma mff_world: "matrix_from_frame worldXY = [[1, 0, 0, 0], [0, 1, 0, 0], [0, 0, 1, 0], [0, 0, 0, 1]]"
  by (simp add: matrix_from_frame_def worldXY_def cross_vectors_def)

lemma inv_doc: "matrix_inverse [[1, 0, 0, 2], [0, 1, 0, 5], [0, 0, 1, 0], [0, 0, 0, 1]]
   = Inr [[1, 0, 0, - 2], [0, 1, 0, - 5], [0, 0, 1, 0], [0, 0, 0, 1]]"
  by (simp add: kernel_eval)

lemma inv_world: "matrix_inverse [[1, 0, 0, 0], [0, 1, 0, 0], [0, 0, 1, 0], [0, 0, 0, 1]]
   = Inr [[1, 0, 0, 0], [0, 1, 0, 0], [0, 0, 1, 0], [0, 0, 0, 1]]"
  by (simp add: kernel_eval)

lemma Tl_doc: "matrix_from_change_of_basis worldXY doc_frame
   = Inr [[1, 0, 0, - 2], [0, 1, 0, - 5], [0, 0, 1, 0], [0, 0, 0, 1]]"
  by (simp add: matrix_from_change_of_basis_def mff_doc mff_world inv_doc)
     (simp add: multiply_matrices_def transpose_matrix_def dot_vectors_def)

lemma Tw_doc: "matrix_from_change_of_basis doc_frame worldXY
   = Inr [[1, 0, 0, 2], [0, 1, 0, 5], [0, 0, 1, 0], [0, 0, 0, 1]]"
  by (simp add: matrix_from_change_of_basis_def mff_doc mff_world inv_world)
     (simp add: multiply_matrices_def transpose_matrix_def dot_vectors_def)

lemma doc_scale_matrix:
  "bind_res (matrix_from_change_of_basis worldXY doc_frame) (\<lambda>Tl.
   bind_res (matrix_from_scale_factors [2, 2, 2]) (\<lambda>Sc.
   bind_res (matrix_from_change_of_basis doc_frame worldXY) (\<lambda>Tw.
   bind_res (multiply_matrices Tw Sc) (\<lambda>TwSc.
     multiply_matrices TwSc Tl))))
   = Inr [[2, 0, 0, - 2], [0, 2, 0, - 5], [0, 0, 2, 0], [0, 0, 0, 1]]"
  by (simp add: Tl_doc Tw_doc matrix_from_scale_factors_def)
     (simp add: multiply_matrices_def transpose_matrix_def dot_vectors_def)

lemma new_instance_Scale_None:
  "new_instance Scale VNone h =
     (Inr (length (objs h)), h\<lparr>objs := objs h @ [(Scale, Some VNone)]\<rparr>)"
  by (simp add: new_instance_def Scale_init_def truthy_def Transformation_init_def
      setattr_matrix_def)

text \<open>What \<^verbatim>\<open>Scale.from_factors\<close> returns: an instance holding the matrix it computed.\<close>

lemma from_factors_run:
  assumes "(case fr of
              Some f \<Rightarrow>
                bind_res (matrix_from_change_of_basis worldXY f) (\<lambda>Tl.
                bind_res (matrix_from_scale_factors factors) (\<lambda>Sc.
                bind_res (matrix_from_change_of_basis f worldXY) (\<lambda>Tw.
                bind_res (multiply_matrices Tw Sc) (\<lambda>TwSc.
                  multiply_matrices TwSc Tl))))
            | None \<Rightarrow> matrix_from_scale_factors factors) = Inr A"
  shows "\<exists>h'. Scale_from_factors factors fr h = (Inr (length (objs h)), h')
           \<and> take (length (cells h)) (cells h') = cells h
           \<and> take (length (objs h)) (objs h') = objs h
           \<and> length (objs h') = Suc (length (objs h))
           \<and> type_of h' (length (objs h)) = Scale
           \<and> matrix_of h' (length (objs h)) = Inr A"
proof -
  let ?S = "length (objs h)"
  let ?h1 = "h\<lparr>objs := objs h @ [(Scale, Some VNone)]\<rparr>"
  have k: "(case fr of
              Some f \<Rightarrow>
                kernel_call (\<lambda>h.
                  bind_res (matrix_from_change_of_basis worldXY f) (\<lambda>Tl.
                  bind_res (matrix_from_scale_factors factors) (\<lambda>Sc.
                  bind_res (matrix_from_change_of_basis f worldXY) (\<lambda>Tw.
                  bind_res (multiply_matrices Tw Sc) (\<lambda>TwSc.
                    multiply_matrices TwSc Tl)))))
            | None \<Rightarrow> kernel_call (\<lambda>h. matrix_from_scale_factors factors)) ?h1
        = result_matrix (Inr A) ?h1"
    using assms by (cases fr) (simp_all add: kernel_call_def)
  obtain v h2 where r: "result_matrix (Inr A) ?h1 = (Inr v, h2)" and le: "heap_le ?h1 h2"
    and o: "objs h2 = objs ?h1" and rd: "read_matrix h2 v = Inr A"
    using result_matrix_Inr by blast
  let ?h3 = "h2\<lparr>objs := (objs h2)[?S := (fst (objs h2 ! ?S), Some v)]\<rparr>"
  have run: "Scale_from_factors factors fr h = (Inr ?S, ?h3)"
    using o by (simp add: Scale_from_factors_def bindM_def new_instance_Scale_None k r
        setattr_matrix_def returnM_def)
  from heap_le_cells [OF le] have c: "take (length (cells h)) (cells ?h3) = cells h" by auto
  have "matrix_of ?h3 ?S = Inr A"
    using o rd by (simp add: matrix_of_def getattr_matrix_def)
  moreover have "type_of ?h3 ?S = Scale" using o by (simp add: type_of_def)
  ultimately show ?thesis using run c o by simp
qed

text \<open>
  Claim C8. In any store, \<^verbatim>\<open>S = Scale.from_factors([2, 2, 2], frame)\<close> for the frame with
  origin \<open>(2, 5, 0)\<close> and axes \<open>(1, 0, 0)\<close>, \<open>(0, 1, 0)\<close> returns an instance whose matrix
  maps the point \<open>(2, 5, 0)\<close> to \<open>(2, 5, 0)\<close> and \<open>(2, 10, 0)\<close> to \<open>(2, 15, 0)\<close>; it maps
  every point \<open>p\<close> to the frame origin plus twice the offset of \<open>p\<close> from the origin.
\<close>

theorem frame_relative_scale:
  "bind_res (outcome (Scale_from_factors [2, 2, 2] (Some doc_frame) h))
      (\<lambda>M. transform_point M (2, 5, 0)) = Inr (2, 5, 0)
   \<and> bind_res (outcome (Scale_from_factors [2, 2, 2] (Some doc_frame) h))
      (\<lambda>M. transform_point M (2, 10, 0)) = Inr (2, 15, 0)
   \<and> bind_res (outcome (Scale_from_factors [2, 2, 2] (Some doc_frame) h))
      (\<lambda>M. transform_point M (x, y, z)) = Inr (2 + 2 * (x - 2), 5 + 2 * (y - 5), 0 + 2 * (z - 0))"
proof -
  let ?M = "[[2, 0, 0, - 2], [0, 2, 0, - 5], [0, 0, 2, 0], [0, 0, 0, 1 :: real]]"
  from from_factors_run [where fr = "Some doc_frame" and factors = "[2, 2, 2]" and A = ?M
      and h = h] doc_scale_matrix
  have o: "outcome (Scale_from_factors [2, 2, 2] (Some doc_frame) h) = Inr ?M"
    by (auto simp: outcome_def)
  have "transform_point ?M (u, v, w) = Inr (2 + 2 * (u - 2), 5 + 2 * (v - 5), 0 + 2 * (w - 0))"
    for u v w
    by (simp add: transform_point_def is_shape_def multiply_matrices_def transpose_matrix_def
        dot_vectors_def)
  from this [of 2 5 0] this [of 2 10 0] this [of x y z] show ?thesis
    by (simp add: o)
qed

lemma list4: "length xs = 4 \<Longrightarrow> \<exists>a b c d. xs = [a, b, c, d]"
  by (auto simp: length_Suc_conv numeral_eq_Suc)

lemma shape44:
  assumes "is_shape 4 4 A"
  shows "\<exists>a0 a1 a2 a3 b0 b1 b2 b3 c0 c1 c2 c3 d0 d1 d2 d3.
     A = [[a0, a1, a2, a3], [b0, b1, b2, b3], [c0, c1, c2, c3], [d0, d1, d2, d3]]"
proof -
  from assms have "length A = 4" by (simp add: is_shape_def)
  then obtain r0 r1 r2 r3 where A: "A = [r0, r1, r2, r3]" using list4 by blast
  with assms have "length r0 = 4" "length r1 = 4" "length r2 = 4" "length r3 = 4"
    by (simp_all add: is_shape_def)
  then show ?thesis using A list4 by metis
qed

text \<open>Laplace expansion along any row, and the vanishing of the mixed expansions.\<close>

lemma laplace_rows:
  assumes A: "A = [[a0, a1, a2, a3], [b0, b1, b2, b3], [c0, c1, c2, c3], [d0, d1, d2, d3 :: real]]"
    and "i < 4" "j < 4"
  shows "A ! i ! 0 * cofactor A j 0 + A ! i ! 1 * cofactor A j 1
      + A ! i ! 2 * cofactor A j 2 + A ! i ! 3 * cofactor A j 3
    = (if i = j
       then A ! 0 ! 0 * cofactor A 0 0 + A ! 0 ! 1 * cofactor A 0 1
            + A ! 0 ! 2 * cofactor A 0 2 + A ! 0 ! 3 * cofactor A 0 3
       else 0)"
proof -
  from assms(2) have i: "i = 0 \<or> i = 1 \<or> i = 2 \<or> i = 3" by auto
  from assms(3) have j: "j = 0 \<or> j = 1 \<or> j = 2 \<or> j = 3" by auto
  from i j show ?thesis
    unfolding A
    by (elim disjE) (simp_all add: cofactor_def det3_def without_def algebra_simps)
qed

lemma upt4: "[0..<4] = [0, 1, 2, 3]"
  by (simp add: upt_rec numeral_eq_Suc)

lemma multiply44:
  assumes "is_shape 4 4 A" and "is_shape 4 4 B"
  shows "multiply_matrices A B =
     Inr (map (\<lambda>i. map (\<lambda>j. A ! i ! 0 * B ! 0 ! j + A ! i ! 1 * B ! 1 ! j
                              + A ! i ! 2 * B ! 2 ! j + A ! i ! 3 * B ! 3 ! j) [0, 1, 2, 3])
            [0, 1, 2, 3])"
proof -
  from shape44 [OF assms(1)] obtain a0 a1 a2 a3 b0 b1 b2 b3 c0 c1 c2 c3 d0 d1 d2 d3
    where A: "A = [[a0, a1, a2, a3], [b0, b1, b2, b3], [c0, c1, c2, c3], [d0, d1, d2, d3]]"
    by blast
  from shape44 [OF assms(2)] obtain e0 e1 e2 e3 f0 f1 f2 f3 g0 g1 g2 g3 h0 h1 h2 h3
    where B: "B = [[e0, e1, e2, e3], [f0, f1, f2, f3], [g0, g1, g2, g3], [h0, h1, h2, h3]]"
    by blast
  show ?thesis
    unfolding A B
    by (simp add: multiply_matrices_def transpose_matrix_def dot_vectors_def upt4)
qed

lemma identity4:
  "identity_matrix 4 =
     map (\<lambda>i. map (\<lambda>j. if i = j then 1 else 0) [0, 1, 2, 3 :: nat]) [0, 1, 2, 3 :: nat]"
  by (simp add: identity_matrix_def upt4)

text \<open>The adjugate inverse is a right inverse.\<close>

lemma inverse_right:
  assumes "is_shape 4 4 A" and "matrix_inverse A = Inr B"
  shows "is_shape 4 4 B \<and> multiply_matrices A B = Inr (identity_matrix 4)"
proof -
  from shape44 [OF assms(1)] obtain a0 a1 a2 a3 b0 b1 b2 b3 c0 c1 c2 c3 d0 d1 d2 d3
    where A: "A = [[a0, a1, a2, a3], [b0, b1, b2, b3], [c0, c1, c2, c3], [d0, d1, d2, d3]]"
    by blast
  define d where "d = A ! 0 ! 0 * cofactor A 0 0 + A ! 0 ! 1 * cofactor A 0 1
            + A ! 0 ! 2 * cofactor A 0 2 + A ! 0 ! 3 * cofactor A 0 3"
  have det: "matrix_determinant A = Inr d"
    using assms(1) by (simp add: matrix_determinant_def d_def)
  with assms(2) have nz: "d \<noteq> 0"
    and B: "B = map (\<lambda>i. map (\<lambda>j. cofactor A j i / d) [0, 1, 2, 3]) [0, 1, 2, 3]"
    by (auto simp: matrix_inverse_def singular_tol_def split: if_splits)
  have sB: "is_shape 4 4 B" by (simp add: B is_shape_def)
  have lap: "A ! i ! 0 * cofactor A j 0 + A ! i ! 1 * cofactor A j 1
      + A ! i ! 2 * cofactor A j 2 + A ! i ! 3 * cofactor A j 3 = (if i = j then d else 0)"
    if "i < 4" "j < 4" for i j
    unfolding d_def by (rule laplace_rows [OF A that])
  have entry: "A ! i ! 0 * B ! 0 ! j + A ! i ! 1 * B ! 1 ! j
      + A ! i ! 2 * B ! 2 ! j + A ! i ! 3 * B ! 3 ! j = (if i = j then 1 else 0)"
    if ij: "i < 4" "j < 4" for i j
  proof -
    from ij(2) have j: "j = 0 \<or> j = 1 \<or> j = 2 \<or> j = 3" by auto
    then have "A ! i ! 0 * B ! 0 ! j + A ! i ! 1 * B ! 1 ! j
      + A ! i ! 2 * B ! 2 ! j + A ! i ! 3 * B ! 3 ! j
      = (A ! i ! 0 * cofactor A j 0 + A ! i ! 1 * cofactor A j 1
      + A ! i ! 2 * cofactor A j 2 + A ! i ! 3 * cofactor A j 3) / d"
      by (elim disjE) (simp_all add: B add_divide_distrib)
    also have "\<dots> = (if i = j then 1 else 0)"
      unfolding lap [OF ij] using nz by simp
    finally show ?thesis .
  qed
  have "map (\<lambda>i. map (\<lambda>j. A ! i ! 0 * B ! 0 ! j + A ! i ! 1 * B ! 1 ! j
                     + A ! i ! 2 * B ! 2 ! j + A ! i ! 3 * B ! 3 ! j) [0, 1, 2, 3]) [0, 1, 2, 3]
      = map (\<lambda>i. map (\<lambda>j. if i = j then 1 else 0) [0, 1, 2, 3 :: nat]) [0, 1, 2, 3 :: nat]"
  proof (rule map_cong [OF refl], rule map_cong [OF refl])
    fix i j :: nat
    assume "i \<in> set [0, 1, 2, 3]" and "j \<in> set [0, 1, 2, 3]"
    then have "i < 4" "j < 4" by auto
    then show "A ! i ! 0 * B ! 0 ! j + A ! i ! 1 * B ! 1 ! j
        + A ! i ! 2 * B ! 2 ! j + A ! i ! 3 * B ! 3 ! j = (if i = j then 1 else 0)"
      by (rule entry)
  qed
  then have "multiply_matrices A B = Inr (identity_matrix 4)"
    by (simp only: multiply44 [OF assms(1) sB] identity4)
  with sB show ?thesis by simp
qed

lemma truthy_matrix:
  assumes "read_matrix h m = Inr A" and "A \<noteq> []"
  shows "truthy h m"
proof -
  from read_matrix_struct [OF assms(1)] obtain a where "m = VList a" "a < length (cells h)"
    "length (cells h ! a) = length A" by blast
  with assms(2) show ?thesis by (auto simp: truthy_def get_list_def)
qed

lemma Scale_init_check:
  assumes "read_matrix h m = Inr A" and "A \<noteq> []"
  shows "Scale_init self m h =
     (case scale_check A of Inl e \<Rightarrow> (Inl e, h) | Inr u \<Rightarrow> setattr_matrix self m h)"
  using truthy_matrix [OF assms] assms(1)
  by (simp add: Scale_init_def scale_check_def Transformation_init_def
      split: sum.splits prod.splits)

lemma new_instance_Scale:
  assumes "read_matrix h m = Inr A" and "A \<noteq> []"
  shows "new_instance Scale m h =
     (case scale_check A of
        Inl e \<Rightarrow> (Inl e, h\<lparr>objs := objs h @ [(Scale, None)]\<rparr>)
      | Inr u \<Rightarrow> (Inr (length (objs h)), h\<lparr>objs := objs h @ [(Scale, Some m)]\<rparr>))"
proof -
  have "read_matrix (h\<lparr>objs := objs h @ [(Scale, None)]\<rparr>) m = Inr A"
    using assms(1) by simp
  from Scale_init_check [OF this assms(2)] show ?thesis
    by (simp add: new_instance_def setattr_matrix_def split: sum.splits)
qed

text \<open>
  Claim C7. Let \<open>m\<close> be a 4x4 matrix of numbers in the store, which the decomposition
  accepts, and \<open>check\<close> the canonical scale matrix rebuilt from the scale factors it
  extracts. If \<open>check\<close> does not reproduce the matrix within the tolerance, \<^verbatim>\<open>Scale(m)\<close>
  raises \<open>ValueError\<close> (the specification's \<open>InvalidTransformError\<close>): the caller gets no
  instance, the new object never got its \<open>matrix\<close> attribute, and nothing else in the
  store has changed. If it does, \<^verbatim>\<open>Scale(m)\<close> returns a new \<open>Scale\<close> instance that holds
  \<open>m\<close>.
\<close>

theorem scale_validation:
  assumes "read_matrix h m = Inr A" and "is_shape 4 4 A"
    and "decompose_matrix A = Inr (scale, rest)"
    and "matrix_from_scale_factors scale = Inr check"
  shows "(\<not> allclose (flatten A) (flatten check) \<longrightarrow>
            new_instance Scale m h = (Inl ValueError, h\<lparr>objs := objs h @ [(Scale, None)]\<rparr>))
       \<and> (allclose (flatten A) (flatten check) \<longrightarrow>
            new_instance Scale m h =
              (Inr (length (objs h)), h\<lparr>objs := objs h @ [(Scale, Some m)]\<rparr>))"
proof -
  from assms(2) have "A \<noteq> []" by (auto simp: is_shape_def)
  from new_instance_Scale [OF assms(1) this] assms(3,4) show ?thesis
    by (simp add: scale_check_def)
qed

text \<open>The decomposition of the two matrices of the example stores.\<close>

lemma decompose_shear:
  "decompose_matrix [[1, 0, 0, 0], [1, 1, 0, 0], [0, 0, 1, 0], [0, 0, 0, 1]]
     = Inr ([1, 1, 1], [1, 0, 0], [[1, 0, 0], [0, 1, 0], [0, 0, 1]], [0, 0, 0], [0, 0, 0, 1])"
  by (simp add: decompose_matrix_def is_shape_def allclose_def default_tol_def norm_vector_def
      dot_vectors_def scale_vector_def subtract_vectors_def singular_tol_def det3_def Let_def)

lemma decompose_identity:
  "decompose_matrix [[1, 0, 0, 0], [0, 1, 0, 0], [0, 0, 1, 0], [0, 0, 0, 1]]
     = Inr ([1, 1, 1], [0, 0, 0], [[1, 0, 0], [0, 1, 0], [0, 0, 1]], [0, 0, 0], [0, 0, 0, 1])"
  by (simp add: decompose_matrix_def is_shape_def allclose_def default_tol_def norm_vector_def
      dot_vectors_def scale_vector_def subtract_vectors_def singular_tol_def det3_def Let_def)

theorem scale_validation_witness:
  "new_instance Scale (VList 4) shear_store
     = (Inl ValueError, shear_store\<lparr>objs := objs shear_store @ [(Scale, None)]\<rparr>)
   \<and> new_instance Scale (VList 4) identity_store
     = (Inr 1, identity_store\<lparr>objs := objs identity_store @ [(Scale, Some (VList 4))]\<rparr>)"
proof -
  let ?S = "[[1, 0, 0, 0], [1, 1, 0, 0], [0, 0, 1, 0], [0, 0, 0, 1 :: real]]"
  let ?I = "[[1, 0, 0, 0], [0, 1, 0, 0], [0, 0, 1, 0], [0, 0, 0, 1 :: real]]"
  have r1: "read_matrix shear_store (VList 4) = Inr ?S"
    by (simp add: shear_store_def read_matrix_def read_row_def read_num_def ev_simps)
  have r2: "read_matrix identity_store (VList 4) = Inr ?I"
    by (simp add: identity_store_def read_matrix_def read_row_def read_num_def ev_simps)
  have s1: "is_shape 4 4 ?S" and s2: "is_shape 4 4 ?I" by (simp_all add: is_shape_def)
  have c: "matrix_from_scale_factors [1, 1, 1] = Inr ?I"
    by (simp add: matrix_from_scale_factors_def)
  have n1: "\<not> allclose (flatten ?S) (flatten ?I)"
    by (simp add: allclose_def flatten_def default_tol_def)
  have n2: "allclose (flatten ?I) (flatten ?I)"
    by (simp add: allclose_def flatten_def default_tol_def)
  show ?thesis
    using scale_validation [OF r1 s1 decompose_shear c] scale_validation [OF r2 s2 decompose_identity c]
      n1 n2
    by (simp add: identity_store_def)
qed

lemma decompose_diagonal:
  assumes "singular_tol \<le> sx" "singular_tol \<le> sy" "singular_tol \<le> sz"
  shows "decompose_matrix [[sx, 0, 0, tx], [0, sy, 0, ty], [0, 0, sz, tz], [0, 0, 0, 1]]
     = Inr ([sx, sy, sz], [0, 0, 0], [[1, 0, 0], [0, 1, 0], [0, 0, 1]], [tx, ty, tz],
            [0, 0, 0, 1])"
proof -
  from assms have pos: "0 < sx" "0 < sy" "0 < sz" by (simp_all add: singular_tol_def)
  then have a: "\<bar>sx\<bar> = sx" "\<bar>sy\<bar> = sy" "\<bar>sz\<bar> = sz" by simp_all
  from assms have n: "\<not> sx < singular_tol" "\<not> sy < singular_tol" "\<not> sz < singular_tol"
    by simp_all
  show ?thesis
    using pos
    by (simp add: decompose_matrix_def is_shape_def allclose_def default_tol_def norm_vector_def
        dot_vectors_def scale_vector_def subtract_vectors_def det3_def Let_def a n)
qed

lemma scale_check_diagonal:
  assumes "singular_tol \<le> sx" "singular_tol \<le> sy" "singular_tol \<le> sz"
  shows "scale_check [[sx, 0, 0, tx], [0, sy, 0, ty], [0, 0, sz, tz], [0, 0, 0, 1]]
     = (if \<bar>tx\<bar> \<le> default_tol \<and> \<bar>ty\<bar> \<le> default_tol \<and> \<bar>tz\<bar> \<le> default_tol
        then Inr () else Inl ValueError)"
  by (simp add: scale_check_def decompose_diagonal [OF assms] matrix_from_scale_factors_def
      allclose_def flatten_def)
     (auto simp: default_tol_def)

lemma scale_check_identity: "scale_check (identity_matrix 4) = Inr ()"
  using scale_check_diagonal [of 1 1 1 0 0 0]
  by (simp add: identity4 singular_tol_def default_tol_def)

lemma new_instance_accepts:
  assumes "read_matrix h m = Inr A" and "A \<noteq> []" and "accepts c A"
  shows "new_instance c m h = (Inr (length (objs h)), h\<lparr>objs := objs h @ [(c, Some m)]\<rparr>)"
proof (cases c)
  case Transformation
  then show ?thesis by (simp add: new_instance_Transformation)
next
  case Scale
  with assms(3) new_instance_Scale [OF assms(1,2)] show ?thesis by (simp add: accepts_def)
qed

lemma build_accepts:
  assumes "A \<noteq> []" and "accepts c A"
  shows "\<exists>h'. bindM (result_matrix (Inr A)) (new_instance c) h = (Inr (length (objs h)), h')
      \<and> heap_le h h' \<and> length (objs h') = Suc (length (objs h))
      \<and> matrix_of h' (length (objs h)) = Inr A
      \<and> type_of h' (length (objs h)) = c"
proof -
  obtain v h1 where r: "result_matrix (Inr A) h = (Inr v, h1)" and le: "heap_le h h1"
    and o: "objs h1 = objs h" and rd: "read_matrix h1 v = Inr A"
    using result_matrix_Inr by blast
  let ?h = "h1\<lparr>objs := objs h1 @ [(c, Some v)]\<rparr>"
  have "heap_le h1 ?h" by (simp add: heap_le_def)
  with le have "heap_le h ?h" by (rule heap_le_trans)
  moreover have "matrix_of ?h (length (objs h)) = Inr A"
    using rd o by (simp add: matrix_of_def getattr_matrix_def)
  moreover have "type_of ?h (length (objs h)) = c"
    using o by (simp add: type_of_def)
  ultimately show ?thesis
    using r o by (simp add: bindM_def new_instance_accepts [OF rd assms])
qed

lemma build_rejects:
  assumes "A \<noteq> []" and "scale_check A = Inl e"
  shows "fst (bindM (result_matrix (Inr A)) (new_instance Scale) h) = Inl e"
proof -
  obtain v h1 where r: "result_matrix (Inr A) h = (Inr v, h1)"
    and rd: "read_matrix h1 v = Inr A"
    using result_matrix_Inr by blast
  show ?thesis
    using r assms(2) by (simp add: bindM_def new_instance_Scale [OF rd assms(1)])
qed

lemma product_matrix_of:
  assumes "matrix_of h a = Inr A" and "matrix_of h b = Inr B"
  shows "product_matrix h a (Inst b) = multiply_matrices A B"
  using assms
  by (auto simp: product_matrix_def matrix_of_def operand_matrix_def bind_res_eq_Inr)

text \<open>
  \<^verbatim>\<open>concatenated\<close> of two instances: the class that builds the result, and what its
  constructor makes of the product.
\<close>

lemma concatenated_run:
  assumes "matrix_of h a = Inr A" and "matrix_of h b = Inr B"
    and "multiply_matrices A B = Inr P" and "P \<noteq> []"
    and "c = (if issubclass (type_of h b) (type_of h a) then type_of h a else Transformation)"
  shows "(accepts c P \<longrightarrow>
            (\<exists>h'. Transformation_concatenated a (Inst b) h = (Inr (length (objs h)), h')
               \<and> heap_le h h' \<and> type_of h' (length (objs h)) = c
               \<and> matrix_of h' (length (objs h)) = Inr P))
       \<and> (\<forall>e. c = Scale \<and> scale_check P = Inl e \<longrightarrow>
            fst (Transformation_concatenated a (Inst b) h) = Inl e)"
proof -
  have run: "Transformation_concatenated a (Inst b) h
      = bindM (result_matrix (Inr P)) (new_instance c) h"
    using assms(3,5) product_matrix_of [OF assms(1,2)]
    by (simp add: Transformation_concatenated_def isinstance_def bindM_kernel_call)
  show ?thesis
    unfolding run using build_accepts [OF assms(4), of c h] build_rejects [OF assms(4), of _ h]
    by auto
qed

lemma family_store_built:
  assumes "Scale_from_factors [2, 2, 2] (Some doc_frame) empty_store = (Inr a0, h1)"
    and "Scale_from_factors [1, 2, 3] None h1 = (Inr a1, h2)"
    and "Transformation_from_frame Transformation worldXY h2 = (Inr a2, h3)"
  shows "a0 = 0 \<and> a1 = 1 \<and> a2 = 2 \<and> h3 = family_store"
proof -
  have e1: "Scale_from_factors [2, 2, 2] (Some doc_frame) empty_store =
      (Inr 0,
       \<lparr>cells = [[VNum 2, VNum 0, VNum 0, VNum (- 2)], [VNum 0, VNum 2, VNum 0, VNum (- 5)],
               [VNum 0, VNum 0, VNum 2, VNum 0], [VNum 0, VNum 0, VNum 0, VNum 1],
               [VList 0, VList 1, VList 2, VList 3]],
        objs = [(Scale, Some (VList 4))]\<rparr>)"
    by (simp add: Scale_from_factors_def bindM_def new_instance_Scale_None kernel_call_def
        doc_scale_matrix result_matrix_def new_matrix_def new_list_def setattr_matrix_def
        returnM_def empty_store_def)
  from trans [OF assms(1) [symmetric] e1] have h1: "a0 = 0" "h1 =
       \<lparr>cells = [[VNum 2, VNum 0, VNum 0, VNum (- 2)], [VNum 0, VNum 2, VNum 0, VNum (- 5)],
               [VNum 0, VNum 0, VNum 2, VNum 0], [VNum 0, VNum 0, VNum 0, VNum 1],
               [VList 0, VList 1, VList 2, VList 3]],
        objs = [(Scale, Some (VList 4))]\<rparr>" by simp_all
  have e2: "Scale_from_factors [1, 2, 3] None h1 =
      (Inr 1,
       \<lparr>cells = [[VNum 2, VNum 0, VNum 0, VNum (- 2)], [VNum 0, VNum 2, VNum 0, VNum (- 5)],
               [VNum 0, VNum 0, VNum 2, VNum 0], [VNum 0, VNum 0, VNum 0, VNum 1],
               [VList 0, VList 1, VList 2, VList 3],
               [VNum 1, VNum 0, VNum 0, VNum 0], [VNum 0, VNum 2, VNum 0, VNum 0],
               [VNum 0, VNum 0, VNum 3, VNum 0], [VNum 0, VNum 0, VNum 0, VNum 1],
               [VList 5, VList 6, VList 7, VList 8]],
        objs = [(Scale, Some (VList 4)), (Scale, Some (VList 9))]\<rparr>)"
    unfolding h1
    by (simp add: Scale_from_factors_def bindM_def new_instance_Scale_None kernel_call_def
        matrix_from_scale_factors_def result_matrix_def new_matrix_def new_list_def
        setattr_matrix_def returnM_def)
  from trans [OF assms(2) [symmetric] e2] have h2: "a1 = 1" "h2 =
       \<lparr>cells = [[VNum 2, VNum 0, VNum 0, VNum (- 2)], [VNum 0, VNum 2, VNum 0, VNum (- 5)],
               [VNum 0, VNum 0, VNum 2, VNum 0], [VNum 0, VNum 0, VNum 0, VNum 1],
               [VList 0, VList 1, VList 2, VList 3],
               [VNum 1, VNum 0, VNum 0, VNum 0], [VNum 0, VNum 2, VNum 0, VNum 0],
               [VNum 0, VNum 0, VNum 3, VNum 0], [VNum 0, VNum 0, VNum 0, VNum 1],
               [VList 5, VList 6, VList 7, VList 8]],
        objs = [(Scale, Some (VList 4)), (Scale, Some (VList 9))]\<rparr>" by simp_all
  have e3: "Transformation_from_frame Transformation worldXY h2 = (Inr 2, family_store)"
    unfolding h2
    by (simp add: Transformation_from_frame_def bindM_def kernel_call_def mff_world
        result_matrix_def new_matrix_def new_list_def new_instance_Transformation
        family_store_def)
  from trans [OF assms(3) [symmetric] e3] have "a2 = 2" "h3 = family_store" by simp_all
  with h1(1) h2(1) show ?thesis by simp
qed

lemma family_matrices:
  "matrix_of family_store 0 = Inr [[2, 0, 0, - 2], [0, 2, 0, - 5], [0, 0, 2, 0], [0, 0, 0, 1]]"
  "matrix_of family_store 1 = Inr [[1, 0, 0, 0], [0, 2, 0, 0], [0, 0, 3, 0], [0, 0, 0, 1]]"
  "matrix_of family_store 2 = Inr [[1, 0, 0, 0], [0, 1, 0, 0], [0, 0, 1, 0], [0, 0, 0, 1]]"
  by (simp_all add: family_store_def matrix_of_def getattr_matrix_def read_matrix_def
      read_row_def read_num_def ev_simps)

lemma family_types:
  "type_of family_store 0 = Scale" "type_of family_store 1 = Scale"
  "type_of family_store 2 = Transformation" "length (objs family_store) = 3"
  by (simp_all add: family_store_def type_of_def)

lemma family_products:
  "multiply_matrices [[2, 0, 0, - 2], [0, 2, 0, - 5], [0, 0, 2, 0], [0, 0, 0, 1]]
       [[2, 0, 0, - 2], [0, 2, 0, - 5], [0, 0, 2, 0], [0, 0, 0, 1]]
     = Inr [[4, 0, 0, - 6], [0, 4, 0, - 15], [0, 0, 4, 0], [0, 0, 0, 1]]"
  "multiply_matrices [[1, 0, 0, 0], [0, 2, 0, 0], [0, 0, 3, 0], [0, 0, 0, 1]]
       [[1, 0, 0, 0], [0, 2, 0, 0], [0, 0, 3, 0], [0, 0, 0, 1]]
     = Inr [[1, 0, 0, 0], [0, 4, 0, 0], [0, 0, 9, 0], [0, 0, 0, 1]]"
  "multiply_matrices [[1, 0, 0, 0], [0, 2, 0, 0], [0, 0, 3, 0], [0, 0, 0, 1]]
       [[1, 0, 0, 0], [0, 1, 0, 0], [0, 0, 1, 0], [0, 0, 0, 1]]
     = Inr [[1, 0, 0, 0], [0, 2, 0, 0], [0, 0, 3, 0], [0, 0, 0, 1]]"
  by (simp_all add: multiply_matrices_def transpose_matrix_def dot_vectors_def)

lemma family_checks:
  "scale_check [[4, 0, 0, - 6], [0, 4, 0, - 15], [0, 0, 4, 0], [0, 0, 0, 1]] = Inl ValueError"
  "scale_check [[1, 0, 0, 0], [0, 4, 0, 0], [0, 0, 9, 0], [0, 0, 0, 1]] = Inr ()"
  "scale_check [[2, 0, 0, - 2], [0, 2, 0, - 5], [0, 0, 2, 0], [0, 0, 0, 1]] = Inl ValueError"
  using scale_check_diagonal [of 4 4 4 "- 6" "- 15" 0] scale_check_diagonal [of 1 4 9 0 0 0]
    scale_check_diagonal [of 2 2 2 "- 2" "- 5" 0]
  by (simp_all add: singular_tol_def default_tol_def)

text \<open>
  Claim C3, as amended. For a \<open>Scale\<close> instance \<open>a\<close> and an instance \<open>b\<close>, with the matrix
  product \<open>P\<close>: when \<open>b\<close> is a \<open>Scale\<close> too, \<^verbatim>\<open>a.concatenated(b)\<close> is \<^verbatim>\<open>Scale(P)\<close>, so it
  returns a \<open>Scale\<close> instance holding \<open>P\<close> when the validation of \<open>P\<close> passes, and raises what
  the validation raises otherwise; when \<open>b\<close> is a plain \<open>Transformation\<close>, the result is a
  \<open>Transformation\<close> holding \<open>P\<close>, whatever \<open>P\<close> is.
\<close>

theorem concatenated_class:
  assumes "matrix_of h a = Inr A" and "matrix_of h b = Inr B"
    and "multiply_matrices A B = Inr P" and "P \<noteq> []" and "type_of h a = Scale"
  shows "(type_of h b = Scale \<and> scale_check P = Inr () \<longrightarrow>
            (\<exists>h'. Transformation_concatenated a (Inst b) h = (Inr (length (objs h)), h')
               \<and> type_of h' (length (objs h)) = Scale
               \<and> matrix_of h' (length (objs h)) = Inr P))
       \<and> (\<forall>e. type_of h b = Scale \<and> scale_check P = Inl e \<longrightarrow>
            fst (Transformation_concatenated a (Inst b) h) = Inl e)
       \<and> (type_of h b = Transformation \<longrightarrow>
            (\<exists>h'. Transformation_concatenated a (Inst b) h = (Inr (length (objs h)), h')
               \<and> type_of h' (length (objs h)) = Transformation
               \<and> matrix_of h' (length (objs h)) = Inr P))"
proof -
  have s: "type_of h b = Scale \<Longrightarrow>
      Scale = (if issubclass (type_of h b) (type_of h a) then type_of h a else Transformation)"
    using assms(5) by simp
  have t: "type_of h b = Transformation \<Longrightarrow>
      Transformation = (if issubclass (type_of h b) (type_of h a) then type_of h a
                        else Transformation)"
    using assms(5) by simp
  from concatenated_run [OF assms(1-4) s] concatenated_run [OF assms(1-4) t]
  show ?thesis by (auto simp: accepts_def)
qed

theorem concatenated_class_witness:
  "(\<exists>h'. Transformation_concatenated 1 (Inst 1) family_store = (Inr 3, h')
        \<and> type_of h' 3 = Scale
        \<and> matrix_of h' 3 = Inr [[1, 0, 0, 0], [0, 4, 0, 0], [0, 0, 9, 0], [0, 0, 0, 1]])
   \<and> fst (Transformation_concatenated 0 (Inst 0) family_store) = Inl ValueError
   \<and> (\<exists>h'. Transformation_concatenated 1 (Inst 2) family_store = (Inr 3, h')
        \<and> type_of h' 3 = Transformation
        \<and> matrix_of h' 3 = Inr [[1, 0, 0, 0], [0, 2, 0, 0], [0, 0, 3, 0], [0, 0, 0, 1]])"
  using concatenated_class [OF family_matrices(2) family_matrices(2) family_products(2)]
    concatenated_class [OF family_matrices(1) family_matrices(1) family_products(1)]
    concatenated_class [OF family_matrices(2) family_matrices(3) family_products(3)]
  by (simp add: family_types family_checks del: One_nat_def)

text \<open>
  Claim C3 as stated fails: the product of two \<open>Scale\<close> instances is a \<open>Scale\<close> instance,
  not a plain \<open>Transformation\<close>, and the validation runs again: the frame-relative scale of
  the docstring, multiplied with itself, raises \<open>ValueError\<close>.
\<close>

theorem concatenated_scale_counterexample:
  "type_of family_store 1 = Scale
   \<and> fst (Transformation_concatenated 1 (Inst 1) family_store) = Inr 3
   \<and> type_of (snd (Transformation_concatenated 1 (Inst 1) family_store)) 3 = Scale
   \<and> type_of family_store 0 = Scale
   \<and> fst (Transformation_concatenated 0 (Inst 0) family_store) = Inl ValueError"
  using concatenated_run [OF family_matrices(2) family_matrices(2) family_products(2), of Scale]
    concatenated_run [OF family_matrices(1) family_matrices(1) family_products(1), of Scale]
  by (auto simp: family_types family_checks accepts_def simp del: One_nat_def)

lemma issubclass_refl [simp]: "issubclass c c"
  by (cases c) simp_all

lemma matrix_of_parts:
  assumes "matrix_of h T = Inr A"
  shows "\<exists>m. getattr_matrix h T = Inr m \<and> read_matrix h m = Inr A \<and> T < length (objs h)"
  using assms
  by (auto simp: matrix_of_def bind_res_eq_Inr getattr_matrix_def split: if_splits)

text \<open>\<^verbatim>\<open>self.matrix.copy()\<close>: the new outer list reads as the same matrix.\<close>

lemma list_copy_run:
  assumes "read_matrix h m = Inr A"
  shows "\<exists>h1. list_copy m h = (Inr (VList (length (cells h))), h1) \<and> heap_le h h1
           \<and> objs h1 = objs h \<and> read_matrix h1 (VList (length (cells h))) = Inr A"
proof -
  from assms obtain xs where g: "get_list h m = Some xs"
    and s: "sequence_res (map (read_row h) xs) = Inr A"
    by (auto simp: read_matrix_def split: option.splits)
  let ?h = "h\<lparr>cells := cells h @ [xs]\<rparr>"
  have c: "cells ?h = cells h @ [xs]" by simp
  from read_matrix_grow [OF assms c] get_list_grow [OF g c]
  have "sequence_res (map (read_row ?h) xs) = Inr A"
    by (simp add: read_matrix_def)
  then have "read_matrix ?h (VList (length (cells h))) = Inr A"
    by (simp add: read_matrix_def get_list_def)
  moreover have "heap_le h ?h" by (simp add: heap_le_def)
  ultimately show ?thesis using g by (simp add: list_copy_def)
qed

lemma copy_run:
  assumes "matrix_of h T = Inr A" and "A \<noteq> []" and "accepts (type_of h T) A"
  shows "\<exists>h'. Transformation_copy T h = (Inr (length (objs h)), h') \<and> heap_le h h'
           \<and> length (objs h') = Suc (length (objs h))
           \<and> matrix_of h' (length (objs h)) = Inr A
           \<and> type_of h' (length (objs h)) = type_of h T"
proof -
  from matrix_of_parts [OF assms(1)] obtain m where g: "getattr_matrix h T = Inr m"
    and r: "read_matrix h m = Inr A" by blast
  from list_copy_run [OF r] obtain h1
    where l: "list_copy m h = (Inr (VList (length (cells h))), h1)" and le: "heap_le h h1"
      and o: "objs h1 = objs h" and r1: "read_matrix h1 (VList (length (cells h))) = Inr A"
    by blast
  let ?c = "type_of h T"
  let ?h = "h1\<lparr>objs := objs h1 @ [(?c, Some (VList (length (cells h))))]\<rparr>"
  have run: "Transformation_copy T h = (Inr (length (objs h)), ?h)"
    using g l o new_instance_accepts [OF r1 assms(2,3)]
    by (simp add: Transformation_copy_def bindM_def readM_def)
  have "heap_le h1 ?h" by (simp add: heap_le_def)
  with le have "heap_le h ?h" by (rule heap_le_trans)
  moreover have "matrix_of ?h (length (objs h)) = Inr A"
    using r1 o by (simp add: matrix_of_def getattr_matrix_def)
  moreover have "type_of ?h (length (objs h)) = ?c" using o by (simp add: type_of_def)
  ultimately show ?thesis using run o by simp
qed

lemma copy_rejects:
  assumes "matrix_of h T = Inr A" and "A \<noteq> []" and "type_of h T = Scale"
    and "scale_check A = Inl e"
  shows "fst (Transformation_copy T h) = Inl e"
proof -
  from matrix_of_parts [OF assms(1)] obtain m where g: "getattr_matrix h T = Inr m"
    and r: "read_matrix h m = Inr A" by blast
  from list_copy_run [OF r] obtain h1
    where l: "list_copy m h = (Inr (VList (length (cells h))), h1)"
      and r1: "read_matrix h1 (VList (length (cells h))) = Inr A"
    by blast
  show ?thesis
    using g l assms(3,4) new_instance_Scale [OF r1 assms(2)]
    by (simp add: Transformation_copy_def bindM_def readM_def)
qed

lemma inverse_rejects:
  assumes "matrix_of h T = Inr A" and "A \<noteq> []" and "type_of h T = Scale"
    and "scale_check A = Inl e"
  shows "fst (Transformation_inverse T h) = Inl e"
  using copy_rejects [OF assms]
  by (cases "Transformation_copy T h") (simp add: Transformation_inverse_def bindM_def)

text \<open>\<^verbatim>\<open>invert\<close>: the attribute of \<open>U\<close> is bound to a new matrix, nothing else changes.\<close>

lemma invert_run:
  assumes "matrix_of h U = Inr A" and "matrix_inverse A = Inr Ai"
  shows "\<exists>v h1. Transformation_invert U h
             = (Inr (), h1\<lparr>objs := (objs h1)[U := (fst (objs h1 ! U), Some v)]\<rparr>)
           \<and> heap_le h h1 \<and> objs h1 = objs h \<and> read_matrix h1 v = Inr Ai"
proof -
  from matrix_of_parts [OF assms(1)] have U: "U < length (objs h)" by blast
  obtain v h1 where r: "result_matrix (Inr Ai) h = (Inr v, h1)" and le: "heap_le h h1"
    and o: "objs h1 = objs h" and rd: "read_matrix h1 v = Inr Ai"
    using result_matrix_Inr by blast
  have "Transformation_invert U h
      = (Inr (), h1\<lparr>objs := (objs h1)[U := (fst (objs h1 ! U), Some v)]\<rparr>)"
    using assms r o U
    by (simp add: Transformation_invert_def bindM_def kernel_call_def setattr_matrix_def)
  with le o rd show ?thesis by blast
qed

lemma inverse_exists:
  assumes "matrix_determinant A = Inr d" and "singular_tol \<le> \<bar>d\<bar>"
  shows "\<exists>Ai. matrix_inverse A = Inr Ai"
  using assms by (simp add: matrix_inverse_def)

lemma matrices_close_equal:
  assumes "read_matrix h m1 = Inr A" and "read_matrix h m2 = Inr A" and "is_shape 4 4 A"
    and "0 \<le> tol"
  shows "matrices_close h m1 m2 tol"
proof -
  have "cells_close h m1 m2 tol i j" if "0 \<le> i" "i < 4" "0 \<le> j" "j < 4" for i j
    using entry_read [OF assms(1,3) that] entry_read [OF assms(2,3) that] assms(4)
    by (simp add: cells_close_def)
  then show ?thesis by (simp add: matrices_close_def)
qed

lemma eq_equal_matrices:
  assumes "matrix_of h a = Inr A" and "matrix_of h b = Inr A" and "is_shape 4 4 A"
  shows "Transformation_eq h a (Inst b) default_tol"
proof -
  from matrix_of_parts [OF assms(1)] obtain m1 where 1: "getattr_matrix h a = Inr m1"
    "read_matrix h m1 = Inr A" by blast
  from matrix_of_parts [OF assms(2)] obtain m2 where 2: "getattr_matrix h b = Inr m2"
    "read_matrix h m2 = Inr A" by blast
  have "0 \<le> default_tol" by (simp add: default_tol_def)
  from matrices_close_equal [OF 1(2) 2(2) assms(3) this] 1(1) 2(1) show ?thesis
    by (simp add: eq_as_close operand_matrix_def)
qed

lemma is_shape_identity: "is_shape 4 4 (identity_matrix 4)"
  by (simp add: identity4 is_shape_def)

lemma accepts_identity: "accepts c (identity_matrix 4)"
  by (cases c) (simp_all add: accepts_def scale_check_identity)

text \<open>
  Where the constructor of the class of \<open>T\<close> accepts the matrix \<open>A\<close> of \<open>T\<close> (it always
  does for the class \<open>Transformation\<close>), and \<open>A\<close> is a 4x4 matrix of numbers with \<open>|det A|\<close>
  not below the tolerance: \<^verbatim>\<open>T.inverse()\<close> returns a new instance \<open>Ti\<close>, and leaves the
  attribute of \<open>T\<close>, every list object of the store and so the matrix of \<open>T\<close> as they
  were; \<^verbatim>\<open>T * Ti\<close> returns an instance whose matrix is the 4x4 identity (exactly, in real
  arithmetic), which \<^verbatim>\<open>==\<close> finds equal to any instance holding the identity.
\<close>

lemma inverse_where_accepted:
  assumes "matrix_of h T = Inr A" and "is_shape 4 4 A"
    and "matrix_determinant A = Inr d" and "singular_tol \<le> \<bar>d\<bar>"
    and "accepts (type_of h T) A"
  shows "\<exists>Ti h1 P h2.
      Transformation_inverse T h = (Inr Ti, h1) \<and> Ti \<noteq> T
      \<and> getattr_matrix h1 T = getattr_matrix h T
      \<and> take (length (cells h)) (cells h1) = cells h
      \<and> matrix_of h1 T = Inr A
      \<and> Transformation_concatenated T (Inst Ti) h1 = (Inr P, h2)
      \<and> matrix_of h2 P = Inr (identity_matrix 4)
      \<and> matrix_of h2 T = Inr A
      \<and> (\<forall>I. matrix_of h2 I = Inr (identity_matrix 4)
             \<longrightarrow> Transformation_eq h2 I (Inst P) default_tol)"
proof -
  let ?Ti = "length (objs h)"
  from assms(2) have ne: "A \<noteq> []" by (auto simp: is_shape_def)
  from inverse_exists [OF assms(3,4)] obtain Ai where inv: "matrix_inverse A = Inr Ai" by blast
  from inverse_right [OF assms(2) inv] have prod: "multiply_matrices A Ai = Inr (identity_matrix 4)"
    by simp
  from matrix_of_parts [OF assms(1)] obtain m where g: "getattr_matrix h T = Inr m"
    and T: "T < length (objs h)" by blast
  from copy_run [OF assms(1) ne assms(5)] obtain h1
    where c: "Transformation_copy T h = (Inr ?Ti, h1)" and le1: "heap_le h h1"
      and n1: "length (objs h1) = Suc (length (objs h))"
      and m1: "matrix_of h1 ?Ti = Inr A" and t1: "type_of h1 ?Ti = type_of h T"
    by blast
  from invert_run [OF m1 inv] obtain v h2
    where i: "Transformation_invert ?Ti h1
               = (Inr (), h2\<lparr>objs := (objs h2)[?Ti := (fst (objs h2 ! ?Ti), Some v)]\<rparr>)"
      and le2: "heap_le h1 h2" and o2: "objs h2 = objs h1" and r2: "read_matrix h2 v = Inr Ai"
    by blast
  let ?h3 = "h2\<lparr>objs := (objs h2)[?Ti := (fst (objs h2 ! ?Ti), Some v)]\<rparr>"
  have run: "Transformation_inverse T h = (Inr ?Ti, ?h3)"
    by (simp add: Transformation_inverse_def bindM_def c i returnM_def)
  from heap_le_trans [OF le1 le2] have le: "heap_le h h2" .
  from heap_le_objs [OF le] obtain oe where oe: "objs h2 = objs h @ oe" by blast
  have g3: "getattr_matrix ?h3 T = getattr_matrix h T"
    using T oe by (simp add: getattr_matrix_def nth_append)
  have cells3: "take (length (cells h)) (cells ?h3) = cells h"
    using heap_le_cells [OF le] by auto
  from matrix_of_le [OF assms(1) le] have "matrix_of h2 T = Inr A" .
  then have mT: "matrix_of ?h3 T = Inr A"
    using g3 g getattr_matrix_le [OF g le] by (simp add: matrix_of_def)
  have mTi: "matrix_of ?h3 ?Ti = Inr Ai"
    using r2 o2 n1 by (simp add: matrix_of_def getattr_matrix_def)
  have tT: "type_of ?h3 T = type_of h T"
    using T oe by (simp add: type_of_def nth_append)
  have tTi: "type_of ?h3 ?Ti = type_of h T"
    using t1 o2 n1 by (simp add: type_of_def)
  have cls: "type_of h T
      = (if issubclass (type_of ?h3 ?Ti) (type_of ?h3 T) then type_of ?h3 T else Transformation)"
    by (simp only: tT tTi issubclass_refl if_True)
  have "identity_matrix 4 \<noteq> []" by (simp add: identity4)
  from concatenated_run [OF mT mTi prod this cls] accepts_identity
  obtain h4 where cat: "Transformation_concatenated T (Inst ?Ti) ?h3 = (Inr (length (objs ?h3)), h4)"
    and le4: "heap_le ?h3 h4"
    and mP: "matrix_of h4 (length (objs ?h3)) = Inr (identity_matrix 4)"
    by blast
  from matrix_of_le [OF mT le4] have mT4: "matrix_of h4 T = Inr A" .
  have eq: "Transformation_eq h4 I (Inst (length (objs ?h3))) default_tol"
    if "matrix_of h4 I = Inr (identity_matrix 4)" for I
    using that mP is_shape_identity by (rule eq_equal_matrices)
  have "?Ti \<noteq> T" using T by simp
  with run g3 cells3 mT cat mP mT4 eq show ?thesis by blast
qed

text \<open>
  Claim C6 fails on the code. In the store \<open>family_store\<close> the instance \<open>0\<close> is the
  frame-relative scale of the docstring of \<^verbatim>\<open>Scale\<close>, built by
  \<^verbatim>\<open>Scale.from_factors([2, 2, 2], frame)\<close>, which assigns the matrix without validating it.
  Its matrix has determinant 8, yet \<^verbatim>\<open>copy()\<close> and so \<^verbatim>\<open>inverse()\<close> raise \<open>ValueError\<close>:
  \<^verbatim>\<open>copy\<close> hands the matrix to the constructor of \<open>Scale\<close>, which rejects it. A plain
  \<open>Transformation\<close> made from the very same matrix, \<^verbatim>\<open>Transformation.from_matrix(S.matrix)\<close>,
  is inverted, and its product with its inverse holds the identity.
\<close>

theorem inverse_scale_raises:
  "type_of family_store 0 = Scale
   \<and> matrix_of family_store 0 = Inr [[2, 0, 0, - 2], [0, 2, 0, - 5], [0, 0, 2, 0], [0, 0, 0, 1]]
   \<and> matrix_determinant [[2, 0, 0, - 2], [0, 2, 0, - 5], [0, 0, 2, 0], [0, 0, 0, 1]] = Inr 8
   \<and> fst (Transformation_copy 0 family_store) = Inl ValueError
   \<and> fst (Transformation_inverse 0 family_store) = Inl ValueError
   \<and> fst (Transformation_from_matrix Transformation (VList 4) family_store) = Inr 3
   \<and> (\<exists>Ti h1 P h2.
         Transformation_inverse 3
             (snd (Transformation_from_matrix Transformation (VList 4) family_store))
           = (Inr Ti, h1)
       \<and> Transformation_concatenated 3 (Inst Ti) h1 = (Inr P, h2)
       \<and> matrix_of h2 P = Inr (identity_matrix 4))"
proof -
  let ?M = "[[2, 0, 0, - 2], [0, 2, 0, - 5], [0, 0, 2, 0], [0, 0, 0, 1 :: real]]"
  let ?h = "family_store\<lparr>objs := objs family_store @ [(Transformation, Some (VList 4))]\<rparr>"
  have d: "matrix_determinant ?M = Inr 8"
    by (simp add: matrix_determinant_def is_shape_def cofactor_def det3_def without_def)
  have c: "fst (Transformation_copy 0 family_store) = Inl ValueError"
    by (rule copy_rejects [OF family_matrices(1) _ family_types(1) family_checks(3)]) simp
  have i: "fst (Transformation_inverse 0 family_store) = Inl ValueError"
    by (rule inverse_rejects [OF family_matrices(1) _ family_types(1) family_checks(3)]) simp
  have f: "Transformation_from_matrix Transformation (VList 4) family_store = (Inr 3, ?h)"
    by (simp add: Transformation_from_matrix_def new_instance_Transformation family_types)
  have r: "read_matrix family_store (VList 4) = Inr ?M"
    by (simp add: family_store_def read_matrix_def read_row_def read_num_def ev_simps)
  have m: "matrix_of ?h 3 = Inr ?M"
    using r by (simp add: matrix_of_def getattr_matrix_def family_types nth_append)
  have s: "is_shape 4 4 ?M" by (simp add: is_shape_def)
  have t: "singular_tol \<le> \<bar>8 :: real\<bar>" by (simp add: singular_tol_def)
  have a: "accepts (type_of ?h 3) ?M"
    by (simp add: type_of_def family_types accepts_def nth_append)
  from inverse_where_accepted [OF m s d t a]
  have "\<exists>Ti h1 P h2. Transformation_inverse 3 ?h = (Inr Ti, h1)
       \<and> Transformation_concatenated 3 (Inst Ti) h1 = (Inr P, h2)
       \<and> matrix_of h2 P = Inr (identity_matrix 4)"
    by blast
  with d c i f show ?thesis
    by (simp add: family_types family_matrices)
qed

end
